theory Spec2Isabelle
  imports Complex_Main "HOL-Library.Char_ord" "HOL-Library.List_Lexorder"
    "HOL-Library.Product_Lexorder" "HOL-Library.AList"
begin

section \<open>Python and pandas primitives used by the scripts\<close>

text \<open>
  A Python \<open>str\<close> is modelled as a \<open>string\<close>; one \<open>char\<close> stands for one code point
  below 256. Strings compare as in Python: lexicographically by code point, a proper
  prefix first. Cells of the manifest tables are text: an empty cell, which pandas would
  read as NaN, is outside this model.
\<close>

datatype error =
    MissingColumns "string list"
  | IndexError
  | FileNotFoundError
  | ValueError

text \<open>\<open>xs[:k]\<close>: a negative \<open>k\<close> drops \<open>-k\<close> elements from the end.\<close>

definition py_prefix :: "'a list \<Rightarrow> int \<Rightarrow> 'a list" where
  "py_prefix xs k =
     (if k < 0 then take (length xs - nat (- k)) xs else take (nat k) xs)"

text \<open>\<open>range(n)\<close>: empty when \<open>n \<le> 0\<close>.\<close>

definition py_range :: "int \<Rightarrow> nat list" where
  "py_range n = [0..<nat n]"

text \<open>\<open>df.iloc[i]\<close>: positions below zero count from the end; outside the frame it raises.\<close>

definition iloc :: "'a list \<Rightarrow> int \<Rightarrow> error + 'a" where
  "iloc df i =
     (if 0 \<le> i \<and> i < int (length df) then Inr (df ! nat i)
      else if i < 0 \<and> - int (length df) \<le> i then Inr (df ! nat (int (length df) + i))
      else Inl IndexError)"

text \<open>A list comprehension whose body may raise: the first error ends it.\<close>

fun traverse :: "('a \<Rightarrow> error + 'b) \<Rightarrow> 'a list \<Rightarrow> error + 'b list" where
  "traverse f [] = Inr []"
| "traverse f (x # xs) =
     (case f x of
        Inl e \<Rightarrow> Inl e
      | Inr y \<Rightarrow> (case traverse f xs of Inl e \<Rightarrow> Inl e | Inr ys \<Rightarrow> Inr (y # ys)))"

text \<open>
  \<open>sort_values\<close>, ascending and descending. Both keep rows with equal keys in their
  original order (pandas sorts the reversed frame and reverses the result for a
  descending sort).
\<close>

definition sort_asc :: "('a \<Rightarrow> 'k::linorder) \<Rightarrow> 'a list \<Rightarrow> 'a list" where
  "sort_asc key df = sort_key key df"

definition sort_desc :: "('a \<Rightarrow> 'k::linorder) \<Rightarrow> 'a list \<Rightarrow> 'a list" where
  "sort_desc key df = rev (sort_key key (rev df))"

text \<open>
  \<open>df.groupby(key)\<close>: the groups come in ascending key order, and the rows of a group
  keep the order they have in the frame.
\<close>

definition groupby :: "('a \<Rightarrow> 'k::linorder) \<Rightarrow> 'a list \<Rightarrow> ('k \<times> 'a list) list" where
  "groupby key df =
     map (\<lambda>k. (k, filter (\<lambda>r. key r = k) df)) (sort (remdups (map key df)))"

text \<open>The format \<open>{i:02d}\<close> of a non-negative index: decimal, padded with zeros to width 2.\<close>

definition digit_char :: "nat \<Rightarrow> char" where
  "digit_char d = char_of (48 + d)"

fun dec :: "nat \<Rightarrow> string" where
  "dec n = (if n < 10 then [digit_char n] else dec (n div 10) @ [digit_char (n mod 10)])"

declare dec.simps [simp del]

definition fmt02 :: "nat \<Rightarrow> string" where
  "fmt02 i = replicate (2 - length (dec i)) (CHR ''0'') @ dec i"

section \<open>Task Assembler (assemble_master.py)\<close>

record FilingRecord =
  Company :: string
  Ticker :: string
  Sector :: string
  Form :: string
  Period :: string
  FilingDate :: string
  Accession :: string
  EdgarIndexURL :: string
  OpenAsHTMLURL :: string

text \<open>A task row is the dict the script builds: keys in insertion order.\<close>

type_synonym task_row = "(string \<times> string) list"

definition COLUMNS :: "string list" where
  "COLUMNS =
    [''TaskID'', ''Status'', ''TaskerName'', ''Category'', ''Prompt'', ''Answer'',
     ''SupportingFacts'',
     ''QA_Reviewer'', ''QA_Approval'', ''QA_Final_Approval'', ''Notes'',
     ''Company_1'', ''Ticker_1'', ''Sector_1'', ''Form_1'', ''Period_1'', ''FilingDate_1'',
     ''Company_2'', ''Ticker_2'', ''Sector_2'', ''Form_2'', ''Period_2'', ''FilingDate_2'',
     ''Accession_1'', ''EdgarIndexURL_1'', ''OpenAsHTMLURL_1'', ''PDF_filename_1'',
     ''PDF_checksum_1'', ''PDF_link_1'',
     ''Accession_2'', ''EdgarIndexURL_2'', ''OpenAsHTMLURL_2'', ''PDF_filename_2'',
     ''PDF_checksum_2'', ''PDF_link_2'']"

text \<open>The value a row holds under a key; a key the row lacks reads as the empty cell.\<close>

definition cell :: "task_row \<Rightarrow> string \<Rightarrow> string" where
  "cell row k = (case map_of row k of Some v \<Rightarrow> v | None \<Rightarrow> [])"

text \<open>\<open>df["FilingDate"].astype(str).str[:4]\<close>\<close>

definition Year :: "FilingRecord \<Rightarrow> string" where
  "Year r = take 4 (FilingDate r)"

definition make_row_single :: "string \<Rightarrow> string \<Rightarrow> FilingRecord \<Rightarrow> task_row" where
  "make_row_single task_id cat r =
    [(''TaskID'', task_id), (''Status'', []), (''TaskerName'', []), (''Category'', cat),
     (''Prompt'', []), (''Answer'', []), (''SupportingFacts'', []),
     (''QA_Reviewer'', []), (''QA_Approval'', []), (''QA_Final_Approval'', []), (''Notes'', []),
     (''Company_1'', Company r), (''Ticker_1'', Ticker r), (''Sector_1'', Sector r),
     (''Form_1'', Form r), (''Period_1'', Period r), (''FilingDate_1'', FilingDate r),
     (''Company_2'', []), (''Ticker_2'', []), (''Sector_2'', []),
     (''Form_2'', []), (''Period_2'', []), (''FilingDate_2'', []),
     (''Accession_1'', Accession r), (''EdgarIndexURL_1'', EdgarIndexURL r),
     (''OpenAsHTMLURL_1'', OpenAsHTMLURL r),
     (''PDF_filename_1'', []), (''PDF_checksum_1'', []), (''PDF_link_1'', []),
     (''Accession_2'', []), (''EdgarIndexURL_2'', []), (''OpenAsHTMLURL_2'', []),
     (''PDF_filename_2'', []), (''PDF_checksum_2'', []), (''PDF_link_2'', [])]"

definition make_row_pair :: "string \<Rightarrow> string \<Rightarrow> FilingRecord \<Rightarrow> FilingRecord \<Rightarrow> task_row" where
  "make_row_pair task_id cat_label r1 r2 =
    [(''TaskID'', task_id), (''Status'', []), (''TaskerName'', []), (''Category'', cat_label),
     (''Prompt'', []), (''Answer'', []), (''SupportingFacts'', []),
     (''QA_Reviewer'', []), (''QA_Approval'', []), (''QA_Final_Approval'', []), (''Notes'', []),
     (''Company_1'', Company r1), (''Ticker_1'', Ticker r1), (''Sector_1'', Sector r1),
     (''Form_1'', Form r1), (''Period_1'', Period r1), (''FilingDate_1'', FilingDate r1),
     (''Company_2'', Company r2), (''Ticker_2'', Ticker r2), (''Sector_2'', Sector r2),
     (''Form_2'', Form r2), (''Period_2'', Period r2), (''FilingDate_2'', FilingDate r2),
     (''Accession_1'', Accession r1), (''EdgarIndexURL_1'', EdgarIndexURL r1),
     (''OpenAsHTMLURL_1'', OpenAsHTMLURL r1),
     (''PDF_filename_1'', []), (''PDF_checksum_1'', []), (''PDF_link_1'', []),
     (''Accession_2'', Accession r2), (''EdgarIndexURL_2'', EdgarIndexURL r2),
     (''OpenAsHTMLURL_2'', OpenAsHTMLURL r2),
     (''PDF_filename_2'', []), (''PDF_checksum_2'', []), (''PDF_link_2'', [])]"

subsection \<open>pick_yoy\<close>

text \<open>
  One group of the TWO manifest: its anchor and partner, or nothing when the group is
  skipped. A group is never empty, so \<open>iloc[0]\<close> of the sorted group exists.
\<close>

definition yoy_pair :: "FilingRecord list \<Rightarrow> (FilingRecord \<times> FilingRecord) option" where
  "yoy_pair grp =
     (if length (remdups (map Year grp)) < 2 then None
      else case sort_desc FilingDate grp of
             [] \<Rightarrow> None
           | r1 # _ \<Rightarrow>
               (case filter (\<lambda>r. Year r \<noteq> Year r1) (sort_desc FilingDate grp) of
                  [] \<Rightarrow> None
                | r2 # _ \<Rightarrow> Some (r1, r2)))"

definition yoy_out ::
  "FilingRecord list \<Rightarrow> (string \<times> string \<times> FilingRecord \<times> FilingRecord) list" where
  "yoy_out two_df =
     concat (map (\<lambda>((company, ticker, sector), grp).
                    case yoy_pair grp of
                      None \<Rightarrow> []
                    | Some (r1, r2) \<Rightarrow> [(sector, company, r1, r2)])
                 (groupby (\<lambda>r. (Company r, Ticker r, Sector r)) two_df))"

definition pick_yoy :: "FilingRecord list \<Rightarrow> int \<Rightarrow> task_row list" where
  "pick_yoy two_df k =
     map (\<lambda>(i, (_, _, r1, r2)). make_row_pair (''C_YOY_'' @ fmt02 i) ''C (YoY)'' r1 r2)
         (enumerate 1 (py_prefix (sort_key (\<lambda>x. (fst x, fst (snd x))) (yoy_out two_df)) k))"

subsection \<open>pick_peers\<close>

text \<open>\<open>for i in range(0, len(rows)-1, 2)\<close>: rows \<open>i\<close> and \<open>i+1\<close>, an odd last row left out.\<close>

fun consecutive_pairs :: "'a list \<Rightarrow> ('a \<times> 'a) list" where
  "consecutive_pairs (r1 # r2 # rows) = (r1, r2) # consecutive_pairs rows"
| "consecutive_pairs _ = []"

definition number_peers :: "task_row list \<Rightarrow> task_row list" where
  "number_peers out =
     map (\<lambda>(j, row). AList.update ''TaskID'' (''C_PEER_'' @ fmt02 j) row) (enumerate 1 out)"

text \<open>
  The pairing loop of either stage over the pairs it visits, in order: \<open>Inl\<close> is the
  early \<open>return out\<close> once \<open>len(out) >= k\<close>, \<open>Inr\<close> the list after the loop ran out.
\<close>

fun fill_pairs ::
  "int \<Rightarrow> task_row list \<Rightarrow> (FilingRecord \<times> FilingRecord) list \<Rightarrow> task_row list + task_row list"
where
  "fill_pairs k out [] = Inr out"
| "fill_pairs k out ((r1, r2) # rest) =
     (if k \<le> int (length (out @ [make_row_pair ''PENDING'' ''C (Peer)'' r1 r2]))
      then Inl (number_peers (out @ [make_row_pair ''PENDING'' ''C (Peer)'' r1 r2]))
      else fill_pairs k (out @ [make_row_pair ''PENDING'' ''C (Peer)'' r1 r2]) rest)"

definition stage1_pairs :: "FilingRecord list \<Rightarrow> (FilingRecord \<times> FilingRecord) list" where
  "stage1_pairs df =
     concat (map (\<lambda>(sector, g).
                    concat (map (\<lambda>(year, gy). consecutive_pairs (sort_asc Company gy))
                                (groupby Year g)))
                 (groupby Sector df))"

definition stage2_pairs :: "FilingRecord list \<Rightarrow> (FilingRecord \<times> FilingRecord) list" where
  "stage2_pairs df =
     concat (map (\<lambda>(sector, g). consecutive_pairs (sort_asc (\<lambda>r. (Year r, Company r)) g))
                 (groupby Sector df))"

definition pick_peers ::
  "FilingRecord list \<Rightarrow> int \<Rightarrow> (string \<times> string) set \<Rightarrow> task_row list" where
  "pick_peers ab_df k used_companies =
     (let df = filter (\<lambda>r. (Company r, Ticker r) \<notin> used_companies) ab_df in
      case fill_pairs k [] (stage1_pairs df) of
        Inl out \<Rightarrow> out
      | Inr out \<Rightarrow>
          if int (length out) < k then
            (case fill_pairs k out (stage2_pairs df) of
               Inl out2 \<Rightarrow> out2
             | Inr out2 \<Rightarrow> py_prefix (number_peers out2) k)
          else py_prefix (number_peers out) k)"

subsection \<open>assemble\<close>

text \<open>
  The frame \<open>ab_sorted\<close>: sorted by Sector and Company ascending, FilingDate descending;
  a sort on several columns is stable, so it is three stable sorts, last key first.
\<close>

definition sort_ab :: "FilingRecord list \<Rightarrow> FilingRecord list" where
  "sort_ab ab = sort_asc Sector (sort_asc Company (sort_desc FilingDate ab))"

definition a_rows_of :: "FilingRecord list \<Rightarrow> int \<Rightarrow> error + task_row list" where
  "a_rows_of ab_sorted a_count =
     traverse (\<lambda>i. map_sum id (make_row_single (''A_'' @ fmt02 (i + 1)) ''A'')
                           (iloc ab_sorted (int i)))
              (py_range (min a_count (int (length ab_sorted))))"

definition b_rows_of :: "FilingRecord list \<Rightarrow> int \<Rightarrow> int \<Rightarrow> error + task_row list" where
  "b_rows_of ab_sorted a_count b_count =
     (let b_start = min a_count (int (length ab_sorted));
          b_end = min (b_start + b_count) (int (length ab_sorted))
      in traverse (\<lambda>i. map_sum id (make_row_single (''B_'' @ fmt02 (i + 1)) ''B'')
                                (iloc ab_sorted (b_start + int i)))
                  (py_range (max 0 (b_end - b_start))))"

definition all_rows ::
  "FilingRecord list \<Rightarrow> FilingRecord list \<Rightarrow> int \<Rightarrow> int \<Rightarrow> int \<Rightarrow> int \<Rightarrow> error + task_row list"
where
  "all_rows ab two a_count b_count c_yoy_count c_peer_count =
     (let ab_sorted = sort_ab ab in
      case a_rows_of ab_sorted a_count of
        Inl e \<Rightarrow> Inl e
      | Inr a_rows \<Rightarrow>
          (case b_rows_of ab_sorted a_count b_count of
             Inl e \<Rightarrow> Inl e
           | Inr b_rows \<Rightarrow>
               (let yoy_rows = pick_yoy two c_yoy_count;
                    used_companies = set (map (\<lambda>r. (cell r ''Company_1'', cell r ''Ticker_1'')) yoy_rows);
                    peer_rows = pick_peers ab_sorted c_peer_count used_companies
                in Inr (a_rows @ b_rows @ yoy_rows @ peer_rows))))"

text \<open>
  A CSV file: the header and the lines under it. \<open>pd.read_csv\<close> makes one row per
  line, a cell under each column name of the header.
\<close>

record csv =
  header :: "string list"
  lines :: "string list list"

definition csv_rows :: "csv \<Rightarrow> task_row list" where
  "csv_rows t = map (\<lambda>l. zip (header t) l) (lines t)"

text \<open>
  The rows of a manifest as the assembler reads them. Period is the one column it
  reads with a default (\<open>r.get("Period", "")\<close>); the others are required first.
\<close>

definition read_manifest :: "csv \<Rightarrow> FilingRecord list" where
  "read_manifest t =
     map (\<lambda>d. \<lparr>Company = cell d ''Company'', Ticker = cell d ''Ticker'',
                Sector = cell d ''Sector'', Form = cell d ''Form'',
                Period = cell d ''Period'', FilingDate = cell d ''FilingDate'',
                Accession = cell d ''Accession'', EdgarIndexURL = cell d ''EdgarIndexURL'',
                OpenAsHTMLURL = cell d ''OpenAsHTMLURL''\<rparr>)
         (csv_rows t)"

definition require_cols :: "string list \<Rightarrow> string list \<Rightarrow> error + unit" where
  "require_cols cols needed =
     (if filter (\<lambda>c. c \<notin> set cols) needed \<noteq> []
      then Inl (MissingColumns (filter (\<lambda>c. c \<notin> set cols) needed))
      else Inr ())"

definition REQUIRED :: "string list" where
  "REQUIRED = [''Company'', ''Ticker'', ''Sector'', ''Form'', ''FilingDate'', ''Accession'',
               ''EdgarIndexURL'', ''OpenAsHTMLURL'']"

text \<open>\<open>pd.DataFrame(all_rows, columns=COLUMNS)\<close>, as \<open>to_csv\<close> writes it.\<close>

definition data_frame :: "task_row list \<Rightarrow> string list \<Rightarrow> csv" where
  "data_frame rows cols = \<lparr>header = cols, lines = map (\<lambda>r. map (cell r) cols) rows\<rparr>"

definition assemble_table :: "csv \<Rightarrow> csv \<Rightarrow> int \<Rightarrow> int \<Rightarrow> int \<Rightarrow> int \<Rightarrow> error + csv" where
  "assemble_table ab two a_count b_count c_yoy_count c_peer_count =
     (case require_cols (header ab) REQUIRED of
        Inl e \<Rightarrow> Inl e
      | Inr _ \<Rightarrow>
          (case require_cols (header two) REQUIRED of
             Inl e \<Rightarrow> Inl e
           | Inr _ \<Rightarrow>
               (case all_rows (read_manifest ab) (read_manifest two)
                              a_count b_count c_yoy_count c_peer_count of
                  Inl e \<Rightarrow> Inl e
                | Inr rows \<Rightarrow> Inr (data_frame rows COLUMNS))))"

text \<open>The run on a file store: it reads the two manifests and writes the master table.\<close>

type_synonym files = "string \<rightharpoonup> csv"

definition assemble ::
  "string \<Rightarrow> string \<Rightarrow> string \<Rightarrow> int \<Rightarrow> int \<Rightarrow> int \<Rightarrow> int \<Rightarrow> files \<Rightarrow> error + files" where
  "assemble ab_path two_path out_path a_count b_count c_yoy_count c_peer_count fs =
     (case fs ab_path of
        None \<Rightarrow> Inl FileNotFoundError
      | Some ab \<Rightarrow>
          (case fs two_path of
             None \<Rightarrow> Inl FileNotFoundError
           | Some two \<Rightarrow>
               (case assemble_table ab two a_count b_count c_yoy_count c_peer_count of
                  Inl e \<Rightarrow> Inl e
                | Inr master \<Rightarrow> Inr (fs(out_path \<mapsto> master)))))"

section \<open>PDF Finalizer (finalize_pdfs_offline.py)\<close>

text \<open>
  A cell of the task table as pandas hands it to the script: text, NaN for an empty
  cell, and \<open>None\<close> from \<open>row.get\<close> when the table has no such column.
\<close>

datatype pyval = PyNone | NaN | Str string

type_synonym series = "(string \<times> pyval) list"

definition row_get :: "series \<Rightarrow> string \<Rightarrow> pyval" where
  "row_get row k = (case map_of row k of None \<Rightarrow> PyNone | Some v \<Rightarrow> v)"

subsection \<open>Helpers\<close>

text \<open>
  Whitespace as \<open>str.strip\<close> and the pattern \<open>\s\<close> see it, among the code points below
  256: tab to carriage return, the four separators 28 to 31, space, NEL and the
  no-break space.
\<close>

definition is_space :: "char \<Rightarrow> bool" where
  "is_space c = (of_char c \<in> {9, 10, 11, 12, 13, 28, 29, 30, 31, 32, 133, 160 :: nat})"

definition strip :: "string \<Rightarrow> string" where
  "strip s = rev (dropWhile is_space (rev (dropWhile is_space s)))"

text \<open>The class \<open>[\\/:*?\"<>|]\<close>: backslash, slash, colon, star, question mark,
  double quote, angle brackets and bar.\<close>

definition UNSAFE :: "char list" where
  "UNSAFE = [CHR 0x5C, CHR ''/'', CHR '':'', CHR ''*'', CHR ''?'', CHR 0x22,
             CHR ''<'', CHR ''>'', CHR ''|'']"

definition sanitize :: "pyval \<Rightarrow> string" where
  "sanitize v =
     (case v of
        PyNone \<Rightarrow> []
      | NaN \<Rightarrow> []
      | Str text \<Rightarrow>
          take 150 (filter (\<lambda>c. c \<notin> set UNSAFE) (filter (\<lambda>c. \<not> is_space c) (strip text))))"

text \<open>\<open>s.lower()\<close> is only compared with \<open>"nan"\<close>, which the ASCII letters decide.\<close>

definition lower_char :: "char \<Rightarrow> char" where
  "lower_char c =
     (if 65 \<le> (of_char c :: nat) \<and> (of_char c :: nat) \<le> 90 then char_of (of_char c + 32 :: nat) else c)"

definition clean_url :: "pyval \<Rightarrow> string" where
  "clean_url v =
     (case v of
        PyNone \<Rightarrow> []
      | NaN \<Rightarrow> []
      | Str text \<Rightarrow>
          if strip text = [] \<or> map lower_char (strip text) = ''nan'' then [] else strip text)"

text \<open>\<open>sep.join(parts)\<close>\<close>

fun join :: "string \<Rightarrow> string list \<Rightarrow> string" where
  "join sep [] = []"
| "join sep [p] = p"
| "join sep (p # q # ps) = p @ sep @ join sep (q # ps)"

definition determine_filename :: "series \<Rightarrow> nat \<Rightarrow> string" where
  "determine_filename row idx =
     (let parts =
            [sanitize (row_get row ''TaskID''),
             sanitize (row_get row (''Ticker_'' @ dec idx)),
             sanitize (row_get row (''Form_'' @ dec idx)),
             sanitize (row_get row (''Period_'' @ dec idx)),
             sanitize (row_get row (''FilingDate_'' @ dec idx))]
            @ (if idx = 2 then [''doc2''] else []);
          base = join ''_'' (filter (\<lambda>p. p \<noteq> []) parts)
      in (if base = [] then ''row_'' @ dec idx else base) @ ''.pdf'')"

subsection \<open>The world outside the script\<close>

text \<open>
  The network, the clock, the random generator, the file system and the renderer are
  an environment of operations on a world \<open>'w\<close> that the script threads through.
  Beside the world the model keeps a log of what the script did. Sleeps and delays are
  exact rationals.
\<close>

datatype event =
    Fetch string string bool
  | Sleep rat
  | Render string string bool
  | Failure pyval string string

record 'w env =
  download_html_once :: "string \<Rightarrow> string \<Rightarrow> 'w \<Rightarrow> bool \<times> 'w"
  random :: "'w \<Rightarrow> rat \<times> 'w"
  sleep :: "rat \<Rightarrow> 'w \<Rightarrow> 'w"
  html_exists :: "string \<Rightarrow> 'w \<Rightarrow> bool"
  html_size :: "string \<Rightarrow> 'w \<Rightarrow> nat"
  render_local_html :: "string \<Rightarrow> string \<Rightarrow> 'w \<Rightarrow> bool \<times> 'w"
  pdf_exists :: "string \<Rightarrow> 'w \<Rightarrow> bool"
  checksum :: "string \<Rightarrow> 'w \<Rightarrow> string"

text \<open>\<open>time.sleep(s)\<close> raises ValueError on a negative length.\<close>

definition time_sleep :: "'w env \<Rightarrow> rat \<Rightarrow> 'w \<times> event list \<Rightarrow> (error + unit) \<times> 'w \<times> event list" where
  "time_sleep E s st =
     (if s < 0 then (Inl ValueError, st)
      else (Inr (), sleep E s (fst st), snd st @ [Sleep s]))"

subsection \<open>Download with retries\<close>

text \<open>The loop \<open>for attempt in range(1, max_fetch_retries + 2)\<close> over its attempt numbers.\<close>

fun retry_loop ::
  "'w env \<Rightarrow> string \<Rightarrow> string \<Rightarrow> rat \<Rightarrow> rat \<Rightarrow> nat list \<Rightarrow> 'w \<times> event list
     \<Rightarrow> (error + bool) \<times> 'w \<times> event list"
where
  "retry_loop E url path sleep_min sleep_max [] st = (Inr False, st)"
| "retry_loop E url path sleep_min sleep_max (attempt # rest) st =
     (case download_html_once E url path (fst st) of
        (ok, w1) \<Rightarrow>
          if ok then (Inr True, w1, snd st @ [Fetch url path True])
          else
            (case random E w1 of
               (u, w2) \<Rightarrow>
                 (case time_sleep E ((sleep_min + u * (sleep_max - sleep_min))
                                      + of_nat attempt * (6 / 10))
                                   (w2, snd st @ [Fetch url path False]) of
                    (Inl e, st') \<Rightarrow> (Inl e, st')
                  | (Inr _, st') \<Rightarrow> retry_loop E url path sleep_min sleep_max rest st')))"

definition download_html_with_retries ::
  "'w env \<Rightarrow> string \<Rightarrow> string \<Rightarrow> rat \<Rightarrow> rat \<Rightarrow> int \<Rightarrow> 'w \<times> event list
     \<Rightarrow> (error + bool) \<times> 'w \<times> event list"
where
  "download_html_with_retries E url path sleep_min sleep_max max_fetch_retries st =
     retry_loop E url path sleep_min sleep_max [1..<nat (max_fetch_retries + 2)] st"

subsection \<open>main\<close>

record args =
  outdir :: string
  overwrite :: bool
  only_missing :: bool
  arg_sleep_min :: rat
  arg_sleep_max :: rat
  arg_max_fetch_retries :: int

text \<open>\<open>str(x or "")\<close>: NaN is truthy, so it prints as \<open>nan\<close>.\<close>

definition str_or_empty :: "pyval \<Rightarrow> string" where
  "str_or_empty v = (case v of PyNone \<Rightarrow> [] | NaN \<Rightarrow> ''nan'' | Str text \<Rightarrow> text)"

text \<open>\<open>filename.replace(".pdf", ".html")\<close>\<close>

fun pdf_to_html :: "string \<Rightarrow> string" where
  "pdf_to_html (c1 # c2 # c3 # c4 # rest) =
     (if [c1, c2, c3, c4] = ''.pdf'' then ''.html'' @ pdf_to_html rest
      else c1 # pdf_to_html (c2 # c3 # c4 # rest))"
| "pdf_to_html s = s"

text \<open>The size check, the render and the write-back of one slot.\<close>

definition render_slot ::
  "'w env \<Rightarrow> series \<Rightarrow> nat \<Rightarrow> nat \<Rightarrow> string \<Rightarrow> string \<Rightarrow> string \<Rightarrow> string \<Rightarrow> series list
     \<Rightarrow> 'w \<times> event list \<Rightarrow> series list \<times> 'w \<times> event list"
where
  "render_slot E row idx_row doc_idx url filename html_path pdf_path df st =
     (if html_size E html_path (fst st) < 1024
      then (df, fst st,
            snd st @ [Failure (row_get row ''TaskID'') url
                        (''html_too_small('' @ dec (html_size E html_path (fst st)) @ '')'')])
      else
        (case render_local_html E html_path pdf_path (fst st) of
           (ok, w1) \<Rightarrow>
             if ok \<and> pdf_exists E pdf_path w1
             then (df[idx_row :=
                        AList.update (''PDF_checksum_'' @ dec doc_idx) (Str (checksum E pdf_path w1))
                          (AList.update (''PDF_filename_'' @ dec doc_idx) (Str filename)
                             (df ! idx_row))],
                   w1, snd st @ [Render html_path pdf_path ok])
             else (df, w1,
                   snd st @ [Render html_path pdf_path ok,
                             Failure (row_get row ''TaskID'') url ''render_failed''])))"

text \<open>The body of the loop \<open>for doc_idx in (1, 2)\<close> for one row and one slot.\<close>

definition process_slot ::
  "'w env \<Rightarrow> args \<Rightarrow> series \<Rightarrow> nat \<Rightarrow> nat \<Rightarrow> series list \<Rightarrow> 'w \<times> event list
     \<Rightarrow> (error + series list) \<times> 'w \<times> event list"
where
  "process_slot E a row idx_row doc_idx df st =
     (let sleep_min = arg_sleep_min a;
          sleep_max = max (arg_sleep_min a) (arg_sleep_max a);
          max_fetch_retries = max 0 (arg_max_fetch_retries a);
          url = clean_url (row_get row (''OpenAsHTMLURL_'' @ dec doc_idx))
      in
      if url = [] then (Inr df, st)
      else if only_missing a
              \<and> strip (str_or_empty (row_get row (''PDF_filename_'' @ dec doc_idx))) \<noteq> []
      then (Inr df, st)
      else
        (let filename = determine_filename row doc_idx;
             pdf_path = outdir a @ ''/'' @ filename;
             html_path = ''html_cache/'' @ pdf_to_html filename
         in
         if \<not> html_exists E html_path (fst st) \<or> overwrite a then
           (case download_html_with_retries E url html_path sleep_min sleep_max
                   max_fetch_retries st of
              (Inl e, st1) \<Rightarrow> (Inl e, st1)
            | (Inr ok, st1) \<Rightarrow>
                if \<not> ok
                then (Inr df, fst st1,
                      snd st1 @ [Failure (row_get row ''TaskID'') url
                                   ''download_failed_or_blocked''])
                else
                  (case random E (fst st1) of
                     (u, w2) \<Rightarrow>
                       (case time_sleep E (sleep_min + u * (sleep_max - sleep_min))
                                         (w2, snd st1) of
                          (Inl e, st2) \<Rightarrow> (Inl e, st2)
                        | (Inr _, st2) \<Rightarrow>
                            (case render_slot E row idx_row doc_idx url filename
                                              html_path pdf_path df st2 of
                               (df', st3) \<Rightarrow> (Inr df', st3)))))
         else
           (case render_slot E row idx_row doc_idx url filename html_path pdf_path df st of
              (df', st3) \<Rightarrow> (Inr df', st3))))"

text \<open>
  The two loops of \<open>main\<close>. The trace holds, for every row and slot the run reached,
  the events of that slot.
\<close>

type_synonym trace = "(nat \<times> nat \<times> event list) list"

fun run_slots ::
  "'w env \<Rightarrow> args \<Rightarrow> series \<Rightarrow> nat \<Rightarrow> nat list \<Rightarrow> series list \<Rightarrow> 'w \<Rightarrow> trace
     \<Rightarrow> (error + series list) \<times> 'w \<times> trace"
where
  "run_slots E a row idx_row [] df w tr = (Inr df, w, tr)"
| "run_slots E a row idx_row (doc_idx # rest) df w tr =
     (case process_slot E a row idx_row doc_idx df (w, []) of
        (Inl e, w1, evs) \<Rightarrow> (Inl e, w1, tr @ [(idx_row, doc_idx, evs)])
      | (Inr df1, w1, evs) \<Rightarrow>
          run_slots E a row idx_row rest df1 w1 (tr @ [(idx_row, doc_idx, evs)]))"

fun run_rows ::
  "'w env \<Rightarrow> args \<Rightarrow> (nat \<times> series) list \<Rightarrow> series list \<Rightarrow> 'w \<Rightarrow> trace
     \<Rightarrow> (error + series list) \<times> 'w \<times> trace"
where
  "run_rows E a [] df w tr = (Inr df, w, tr)"
| "run_rows E a ((idx_row, row) # rest) df w tr =
     (case run_slots E a row idx_row [1, 2] df w tr of
        (Inl e, w1, tr1) \<Rightarrow> (Inl e, w1, tr1)
      | (Inr df1, w1, tr1) \<Rightarrow> run_rows E a rest df1 w1 tr1)"

record frame =
  columns :: "string list"
  rows :: "series list"

definition NEEDED :: "string list" where
  "NEEDED = [''TaskID'', ''OpenAsHTMLURL_1'', ''OpenAsHTMLURL_2'', ''Ticker_1'', ''Form_1'',
             ''FilingDate_1'']"

definition PDF_COLS :: "string list" where
  "PDF_COLS = [''PDF_filename_1'', ''PDF_checksum_1'', ''PDF_filename_2'', ''PDF_checksum_2'']"

text \<open>\<open>df[col] = ""\<close> for a column the table lacks.\<close>

fun add_missing_cols :: "string list \<Rightarrow> frame \<Rightarrow> frame" where
  "add_missing_cols [] df = df"
| "add_missing_cols (col # cols) df =
     add_missing_cols cols
       (if col \<notin> set (columns df)
        then \<lparr>columns = columns df @ [col],
              rows = map (\<lambda>r. AList.update col (Str []) r) (rows df)\<rparr>
        else df)"

definition main :: "'w env \<Rightarrow> args \<Rightarrow> frame \<Rightarrow> 'w \<Rightarrow> (error + frame) \<times> 'w \<times> trace" where
  "main E a input w =
     (case require_cols (columns input) NEEDED of
        Inl e \<Rightarrow> (Inl e, w, [])
      | Inr _ \<Rightarrow>
          (let df = add_missing_cols PDF_COLS input in
           case run_rows E a (enumerate 0 (rows df)) (rows df) w [] of
             (Inl e, w1, tr) \<Rightarrow> (Inl e, w1, tr)
           | (Inr out, w1, tr) \<Rightarrow> (Inr (df\<lparr>rows := out\<rparr>), w1, tr)))"

section \<open>Definitions used in the statements and proofs\<close>

text \<open>The number a string of decimal digits denotes, and the digits themselves.\<close>

definition dec_value :: "string \<Rightarrow> nat" where
  "dec_value s = foldl (\<lambda>a c. 10 * a + (of_char c - 48)) 0 s"

definition is_digit :: "char \<Rightarrow> bool" where
  "is_digit c = (48 \<le> (of_char c :: nat) \<and> (of_char c :: nat) \<le> 57)"

text \<open>A list of rows carries the category \<open>cat\<close> and the TaskIDs \<open>pre01, pre02, ...\<close>.\<close>

definition numbered :: "string \<Rightarrow> string \<Rightarrow> task_row list \<Rightarrow> bool" where
  "numbered pre cat rs \<longleftrightarrow>
     map (\<lambda>r. cell r ''TaskID'') rs = map (\<lambda>i. pre @ fmt02 (Suc i)) [0..<length rs]
     \<and> (\<forall>r \<in> set rs. cell r ''Category'' = cat)"

text \<open>The row \<open>pick_peers\<close> appends for a pair.\<close>

definition peer_row :: "FilingRecord \<times> FilingRecord \<Rightarrow> task_row" where
  "peer_row = (\<lambda>(r1, r2). make_row_pair ''PENDING'' ''C (Peer)'' r1 r2)"

text \<open>The pairs that \<open>pick_peers\<close> returns as rows.\<close>

definition peer_selection :: "FilingRecord list \<Rightarrow> int \<Rightarrow> (FilingRecord \<times> FilingRecord) list" where
  "peer_selection df k =
     (if max 1 (nat k) \<le> length (stage1_pairs df) then take (max 1 (nat k)) (stage1_pairs df)
      else if k \<le> int (length (stage1_pairs df)) then []
      else take (nat k) (stage1_pairs df @ stage2_pairs df))"

text \<open>The set \<open>used_companies\<close> of a run.\<close>

definition used_of :: "FilingRecord list \<Rightarrow> int \<Rightarrow> (string \<times> string) set" where
  "used_of two k = set (map (\<lambda>r. (cell r ''Company_1'', cell r ''Ticker_1'')) (pick_yoy two k))"

text \<open>Example tables: the header the Manifest Builder writes, and a few filings.\<close>

definition MANIFEST_HEADER :: "string list" where
  "MANIFEST_HEADER = [''TaskID'', ''Company'', ''Ticker'', ''Sector'', ''Form'', ''Period'',
                      ''FilingDate'', ''Accession'', ''EdgarIndexURL'', ''OpenAsHTMLURL'']"

definition ex_line :: "string \<Rightarrow> string \<Rightarrow> string \<Rightarrow> string \<Rightarrow> string list" where
  "ex_line company ticker sector date =
     [[], company, ticker, sector, ''10-K'', take 4 date, date, ''acc'', ''idx'', ''url'']"

definition ex_record :: "string \<Rightarrow> string \<Rightarrow> string \<Rightarrow> string \<Rightarrow> FilingRecord" where
  "ex_record company ticker sector date =
     \<lparr>Company = company, Ticker = ticker, Sector = sector, Form = ''10-K'',
      Period = take 4 date, FilingDate = date, Accession = ''acc'', EdgarIndexURL = ''idx'',
      OpenAsHTMLURL = ''url''\<rparr>"

definition ex_ab :: csv where
  "ex_ab = \<lparr>header = MANIFEST_HEADER,
            lines = [ex_line ''Bolt'' ''BLT'' ''Tech'' ''2024-03-01'',
                     ex_line ''Acme'' ''ACM'' ''Tech'' ''2024-02-01'']\<rparr>"

definition ex_two :: csv where
  "ex_two = \<lparr>header = MANIFEST_HEADER,
             lines = [ex_line ''Core'' ''COR'' ''Tech'' ''2024-11-01'',
                      ex_line ''Core'' ''COR'' ''Tech'' ''2023-11-01'']\<rparr>"

definition ex_none :: csv where
  "ex_none = \<lparr>header = MANIFEST_HEADER, lines = []\<rparr>"

definition ex_ab100 :: csv where
  "ex_ab100 = \<lparr>header = MANIFEST_HEADER,
               lines = replicate 100 (ex_line ''Acme'' ''ACM'' ''Tech'' ''2024-02-01'')\<rparr>"

text \<open>The TaskIDs of the rows of one category, in table order.\<close>

definition task_ids :: "csv \<Rightarrow> string \<Rightarrow> string list" where
  "task_ids master cat =
     map (\<lambda>r. cell r ''TaskID'') (filter (\<lambda>r. cell r ''Category'' = cat) (csv_rows master))"

text \<open>The pattern \<open><PREFIX>_<2-digit index>\<close>, read literally.\<close>

definition two_digit_id :: "string \<Rightarrow> string \<Rightarrow> bool" where
  "two_digit_id pre s \<longleftrightarrow>
     length s = length pre + 3 \<and> take (length pre + 1) s = pre @ ''_''
     \<and> list_all is_digit (drop (length pre + 1) s)"

definition ex_acme :: FilingRecord where
  "ex_acme = ex_record ''Acme'' ''ACM'' ''Tech'' ''2024-02-01''"

definition ex_bolt :: FilingRecord where
  "ex_bolt = ex_record ''Bolt'' ''BLT'' ''Tech'' ''2024-03-01''"

text \<open>The table the assembler writes for \<open>ex_ab\<close> and \<open>ex_two\<close> with the counts 1, 1, 1, 2.\<close>

definition ex_master :: csv where
  "ex_master =
     data_frame
       [make_row_single ''A_01'' ''A'' ex_acme,
        make_row_single ''B_01'' ''B'' ex_bolt,
        make_row_pair ''C_YOY_01'' ''C (YoY)''
          (ex_record ''Core'' ''COR'' ''Tech'' ''2024-11-01'')
          (ex_record ''Core'' ''COR'' ''Tech'' ''2023-11-01''),
        make_row_pair ''C_PEER_01'' ''C (Peer)'' ex_acme ex_bolt,
        make_row_pair ''C_PEER_02'' ''C (Peer)'' ex_acme ex_bolt]
       COLUMNS"




text \<open>
  The sanitized field as the specification words it: the text of the cell without
  whitespace and without path-unsafe characters, cut to 150 characters; nothing for a
  missing or empty cell.
\<close>

definition spec_sanitized :: "pyval \<Rightarrow> string" where
  "spec_sanitized v =
     (case v of
        Str text \<Rightarrow> take 150 (filter (\<lambda>c. \<not> is_space c \<and> c \<notin> set UNSAFE) text)
      | _ \<Rightarrow> [])"

text \<open>The non-empty parts of a file name: the five sanitized fields of the slot, and
  the marker \<open>doc2\<close> for slot 2.\<close>

definition spec_parts :: "series \<Rightarrow> nat \<Rightarrow> string list" where
  "spec_parts row idx =
     filter (\<lambda>p. p \<noteq> [])
       (map (\<lambda>k. spec_sanitized (row_get row k))
            [''TaskID'', ''Ticker_'' @ dec idx, ''Form_'' @ dec idx, ''Period_'' @ dec idx,
             ''FilingDate_'' @ dec idx]
        @ (if idx = 2 then [''doc2''] else []))"

text \<open>A row whose TaskID and ticker are as long as the cap allows.\<close>

definition ex_long_row :: series where
  "ex_long_row =
     [(''TaskID'', Str (replicate 150 (CHR ''A''))), (''Ticker_1'', Str (replicate 150 (CHR ''B''))),
      (''Form_1'', Str ''10-K''), (''Period_1'', NaN), (''FilingDate_1'', Str ''2024-02-01'')]"

definition ex_row :: series where
  "ex_row =
     [(''TaskID'', Str ''A_01''), (''Ticker_1'', Str '' AC/ME ''), (''Form_1'', Str ''10-K''),
      (''Period_1'', Str ''2023''), (''FilingDate_1'', Str ''2024-02-01''),
      (''Ticker_2'', NaN), (''Form_2'', NaN), (''Period_2'', NaN), (''FilingDate_2'', NaN)]"





text \<open>A cell as \<open>to_csv\<close> writes it.\<close>

definition csv_text :: "pyval \<Rightarrow> string" where
  "csv_text v = (case v of Str text \<Rightarrow> text | _ \<Rightarrow> [])"

text \<open>A frame whose rows hold cells under the frame's columns only.\<close>

definition frame_ok :: "frame \<Rightarrow> bool" where
  "frame_ok df = list_all (\<lambda>r. set (map fst r) \<subseteq> set (columns df)) (rows df)"

text \<open>The test of the only-missing mode on a row and slot.\<close>

definition has_filename :: "series \<Rightarrow> nat \<Rightarrow> bool" where
  "has_filename row doc_idx =
     (strip (str_or_empty (row_get row (''PDF_filename_'' @ dec doc_idx))) \<noteq> [])"

definition ex_args :: args where
  "ex_args = \<lparr>outdir = ''pdfs'', overwrite = False, only_missing = True,
              arg_sleep_min = 0, arg_sleep_max = 0, arg_max_fetch_retries = 0\<rparr>"

definition FINAL_COLUMNS :: "string list" where
  "FINAL_COLUMNS = [''TaskID'', ''OpenAsHTMLURL_1'', ''OpenAsHTMLURL_2'', ''Ticker_1'', ''Form_1'',
                    ''FilingDate_1'', ''PDF_filename_1'', ''PDF_checksum_1'',
                    ''PDF_filename_2'', ''PDF_checksum_2'']"

text \<open>One-row tables: the file name of slot 1 is set in the first and blank in the second.\<close>

definition ex_done_frame :: frame where
  "ex_done_frame =
     \<lparr>columns = FINAL_COLUMNS,
      rows = [zip FINAL_COLUMNS
                [Str ''A_01'', Str ''https://example.org/a.htm'', NaN, Str ''ACM'', Str ''10-K'',
                 Str ''2024-02-01'', Str ''A_01_ACM_10-K_2024-02-01.pdf'', Str ''c0ffee'',
                 NaN, NaN]]\<rparr>"

definition ex_blank_frame :: frame where
  "ex_blank_frame =
     \<lparr>columns = FINAL_COLUMNS,
      rows = [zip FINAL_COLUMNS
                [Str ''A_01'', Str ''https://example.org/a.htm'', NaN, Str ''ACM'', Str ''10-K'',
                 Str ''2024-02-01'', Str '' '', NaN, NaN, NaN]]\<rparr>"

text \<open>A character that is neither whitespace nor path-unsafe.\<close>

definition safe_char :: "char \<Rightarrow> bool" where
  "safe_char c \<longleftrightarrow> \<not> is_space c \<and> c \<notin> set UNSAFE"


section \<open>Properties of the Task Assembler\<close>

subsection \<open>Primitives\<close>

lemma py_prefix_length: "length (py_prefix xs k) \<le> length xs"
  by (simp add: py_prefix_def)


lemma py_prefix_nonneg: "0 \<le> k \<Longrightarrow> length (py_prefix xs k) = min (nat k) (length xs)"
  by (simp add: py_prefix_def)

lemma traverse_total:
  "(\<And>x. x \<in> set xs \<Longrightarrow> f x = Inr (g x)) \<Longrightarrow> traverse f xs = Inr (map g xs)"
  by (induction xs) auto

lemma traverse_Inr:
  "traverse f xs = Inr ys \<Longrightarrow> list_all2 (\<lambda>x y. f x = Inr y) xs ys"
  by (induction xs arbitrary: ys) (auto split: sum.splits)

lemma list_all2_map_eq:
  "list_all2 P xs ys \<Longrightarrow> (\<And>x y. P x y \<Longrightarrow> f y = g x) \<Longrightarrow> map f ys = map g xs"
  by (induction rule: list_all2_induct) auto

lemma iloc_in_set: "iloc df i = Inr r \<Longrightarrow> r \<in> set df"
  by (auto simp: iloc_def split: if_splits)








lemma length_sort_asc: "length (sort_asc k xs) = length xs"
  by (simp add: sort_asc_def)

lemma length_sort_desc: "length (sort_desc k xs) = length xs"
  by (simp add: sort_desc_def)


subsection \<open>Decimal indices\<close>

lemma dec_value_snoc: "dec_value (s @ [c]) = 10 * dec_value s + (of_char c - 48)"
  by (simp add: dec_value_def)

lemma of_char_digit: "d < 10 \<Longrightarrow> (of_char (digit_char d) :: nat) = 48 + d"
  by (simp add: digit_char_def)

lemma dec_value_dec: "dec_value (dec n) = n"
proof (induction n rule: dec.induct)
  case (1 n)
  show ?case
  proof (cases "n < 10")
    case True
    then show ?thesis
      by (subst dec.simps) (simp add: dec_value_def of_char_digit)
  next
    case False
    then have "dec_value (dec (n div 10)) = n div 10"
      using 1 by simp
    then show ?thesis
      using False by (subst dec.simps) (simp add: dec_value_snoc of_char_digit)
  qed
qed

lemma dec_value_zeros: "dec_value (replicate k (CHR ''0'') @ s) = dec_value s"
  by (induction k) (simp_all add: dec_value_def)

lemma dec_value_fmt02: "dec_value (fmt02 i) = i"
  by (simp add: fmt02_def dec_value_zeros dec_value_dec)

lemma fmt02_inj: "fmt02 i = fmt02 j \<Longrightarrow> i = j"
  by (metis dec_value_fmt02)

lemma length_dec_pos: "0 < length (dec n)"
  by (subst dec.simps) simp

lemma length_dec_small: "n < 10 \<Longrightarrow> length (dec n) = 1"
  by (subst dec.simps) simp

lemma length_dec_two: "10 \<le> n \<Longrightarrow> n < 100 \<Longrightarrow> length (dec n) = 2"
  by (subst dec.simps) (simp add: length_dec_small)

lemma length_dec_ge2: "10 \<le> n \<Longrightarrow> 2 \<le> length (dec n)"
  using length_dec_pos [of "n div 10"]
  by (subst dec.simps) (simp del: length_greater_0_conv)

lemma length_dec_large: "100 \<le> n \<Longrightarrow> 3 \<le> length (dec n)"
  using length_dec_ge2 [of "n div 10"]
  by (subst dec.simps) simp

lemma length_fmt02: "length (fmt02 i) = (if i < 100 then 2 else length (dec i))"
proof (cases "i < 10")
  case True
  then show ?thesis by (simp add: fmt02_def length_dec_small)
next
  case False
  show ?thesis
  proof (cases "i < 100")
    case True
    with False show ?thesis by (simp add: fmt02_def length_dec_two)
  next
    case False
    then have "3 \<le> length (dec i)" by (simp add: length_dec_large)
    with False show ?thesis by (simp add: fmt02_def)
  qed
qed

lemma is_digit_digit_char: "d < 10 \<Longrightarrow> is_digit (digit_char d)"
  by (simp add: is_digit_def of_char_digit)

lemma digits_dec: "c \<in> set (dec n) \<Longrightarrow> is_digit c"
proof (induction n rule: dec.induct)
  case (1 n)
  show ?case
  proof (cases "n < 10")
    case True
    with 1(2) show ?thesis
      by (subst (asm) dec.simps) (simp add: is_digit_digit_char)
  next
    case False
    with 1 show ?thesis
      by (subst (asm) (2) dec.simps) (auto simp: is_digit_digit_char)
  qed
qed

lemma digits_fmt02: "c \<in> set (fmt02 i) \<Longrightarrow> is_digit c"
  using digits_dec [of c i] by (auto simp: fmt02_def is_digit_def)

subsection \<open>Cells of the rows\<close>

lemma cell_make_row_single:
  "cell (make_row_single t c r) ''TaskID'' = t"
  "cell (make_row_single t c r) ''Category'' = c"
  "cell (make_row_single t c r) ''Company_1'' = Company r"
  "cell (make_row_single t c r) ''Ticker_1'' = Ticker r"
  "cell (make_row_single t c r) ''Sector_1'' = Sector r"
  "cell (make_row_single t c r) ''Form_1'' = Form r"
  "cell (make_row_single t c r) ''Period_1'' = Period r"
  "cell (make_row_single t c r) ''FilingDate_1'' = FilingDate r"
  "cell (make_row_single t c r) ''Accession_1'' = Accession r"
  "cell (make_row_single t c r) ''EdgarIndexURL_1'' = EdgarIndexURL r"
  "cell (make_row_single t c r) ''OpenAsHTMLURL_1'' = OpenAsHTMLURL r"
  "cell (make_row_single t c r) ''Company_2'' = []"
  "cell (make_row_single t c r) ''Ticker_2'' = []"
  "cell (make_row_single t c r) ''Sector_2'' = []"
  "cell (make_row_single t c r) ''Form_2'' = []"
  "cell (make_row_single t c r) ''Period_2'' = []"
  "cell (make_row_single t c r) ''FilingDate_2'' = []"
  "cell (make_row_single t c r) ''Accession_2'' = []"
  "cell (make_row_single t c r) ''EdgarIndexURL_2'' = []"
  "cell (make_row_single t c r) ''OpenAsHTMLURL_2'' = []"
  "cell (make_row_single t c r) ''PDF_filename_2'' = []"
  "cell (make_row_single t c r) ''PDF_checksum_2'' = []"
  "cell (make_row_single t c r) ''PDF_link_2'' = []"
  by (simp_all add: cell_def make_row_single_def)

lemma cell_make_row_pair:
  "cell (make_row_pair t c r1 r2) ''TaskID'' = t"
  "cell (make_row_pair t c r1 r2) ''Category'' = c"
  "cell (make_row_pair t c r1 r2) ''Company_1'' = Company r1"
  "cell (make_row_pair t c r1 r2) ''Ticker_1'' = Ticker r1"
  "cell (make_row_pair t c r1 r2) ''Sector_1'' = Sector r1"
  "cell (make_row_pair t c r1 r2) ''Form_1'' = Form r1"
  "cell (make_row_pair t c r1 r2) ''Period_1'' = Period r1"
  "cell (make_row_pair t c r1 r2) ''FilingDate_1'' = FilingDate r1"
  "cell (make_row_pair t c r1 r2) ''Accession_1'' = Accession r1"
  "cell (make_row_pair t c r1 r2) ''EdgarIndexURL_1'' = EdgarIndexURL r1"
  "cell (make_row_pair t c r1 r2) ''OpenAsHTMLURL_1'' = OpenAsHTMLURL r1"
  "cell (make_row_pair t c r1 r2) ''Company_2'' = Company r2"
  "cell (make_row_pair t c r1 r2) ''Ticker_2'' = Ticker r2"
  "cell (make_row_pair t c r1 r2) ''Sector_2'' = Sector r2"
  "cell (make_row_pair t c r1 r2) ''Form_2'' = Form r2"
  "cell (make_row_pair t c r1 r2) ''Period_2'' = Period r2"
  "cell (make_row_pair t c r1 r2) ''FilingDate_2'' = FilingDate r2"
  "cell (make_row_pair t c r1 r2) ''Accession_2'' = Accession r2"
  "cell (make_row_pair t c r1 r2) ''EdgarIndexURL_2'' = EdgarIndexURL r2"
  "cell (make_row_pair t c r1 r2) ''OpenAsHTMLURL_2'' = OpenAsHTMLURL r2"
  by (simp_all add: cell_def make_row_pair_def)

lemma cell_update:
  "cell (AList.update k v row) k' = (if k' = k then v else cell row k')"
  by (simp add: cell_def update_conv')

lemma cell_data_frame_row:
  "c \<in> set cols \<Longrightarrow> cell (zip cols (map (cell r) cols)) c = cell r c"
  by (simp add: cell_def map_of_zip_map)

lemma csv_rows_data_frame:
  "csv_rows (data_frame rs cols) = map (\<lambda>r. zip cols (map (cell r) cols)) rs"
  by (simp add: csv_rows_def data_frame_def comp_def)

subsection \<open>The rows of each category\<close>

lemma list_all2_rightD: "list_all2 P xs ys \<Longrightarrow> y \<in> set ys \<Longrightarrow> \<exists>x. P x y"
  by (induction rule: list_all2_induct) auto

lemma a_rows_of_eq:
  "a_rows_of ab a = Inr (map (\<lambda>i. make_row_single (''A_'' @ fmt02 (i + 1)) ''A'' (ab ! i))
                        [0..<nat (min a (int (length ab)))])"
  unfolding a_rows_of_def py_range_def
  by (rule traverse_total) (auto simp: iloc_def)

lemma a_rows_numbered:
  assumes "a_rows_of ab a = Inr rs"
  shows "numbered ''A_'' ''A'' rs" and "length rs = nat (min a (int (length ab)))"
    and "\<And>row. row \<in> set rs \<Longrightarrow> \<exists>t r. r \<in> set ab \<and> row = make_row_single t ''A'' r"
proof -
  let ?n = "nat (min a (int (length ab)))"
  have rs: "rs = map (\<lambda>i. make_row_single (''A_'' @ fmt02 (i + 1)) ''A'' (ab ! i)) [0..<?n]"
    using assms by (simp add: a_rows_of_eq)
  show "length rs = ?n" by (simp add: rs)
  show "numbered ''A_'' ''A'' rs"
    unfolding numbered_def by (simp add: rs comp_def cell_make_row_single)
  show "\<exists>t r. r \<in> set ab \<and> row = make_row_single t ''A'' r" if "row \<in> set rs" for row
  proof -
    from that obtain i where i: "i < ?n"
      and row: "row = make_row_single (''A_'' @ fmt02 (i + 1)) ''A'' (ab ! i)"
      unfolding rs by auto
    from i have "ab ! i \<in> set ab" by simp
    with row show ?thesis by blast
  qed
qed

lemma b_rows_numbered:
  assumes "b_rows_of ab a b = Inr rs"
  shows "numbered ''B_'' ''B'' rs"
    and "length rs = nat (max 0 (min (min a (int (length ab)) + b) (int (length ab))
                                  - min a (int (length ab))))"
    and "\<And>row. row \<in> set rs \<Longrightarrow> \<exists>t r. r \<in> set ab \<and> row = make_row_single t ''B'' r"
proof -
  let ?m = "nat (max 0 (min (min a (int (length ab)) + b) (int (length ab))
                          - min a (int (length ab))))"
  let ?P = "\<lambda>i row. \<exists>r. r \<in> set ab \<and> row = make_row_single (''B_'' @ fmt02 (Suc i)) ''B'' r"
  have "list_all2 (\<lambda>i row. map_sum id (make_row_single (''B_'' @ fmt02 (i + 1)) ''B'')
                      (iloc ab (min a (int (length ab)) + int i)) = Inr row) [0..<?m] rs"
    using assms unfolding b_rows_of_def Let_def py_range_def by (rule traverse_Inr)
  then have all: "list_all2 ?P [0..<?m] rs"
  proof (rule list_all2_mono)
    fix i row
    assume "map_sum id (make_row_single (''B_'' @ fmt02 (i + 1)) ''B'')
              (iloc ab (min a (int (length ab)) + int i)) = Inr row"
    then show "?P i row"
      by (cases "iloc ab (min a (int (length ab)) + int i)") (auto dest: iloc_in_set)
  qed
  then show len: "length rs = ?m"
    by (auto dest: list_all2_lengthD)
  have rows: "\<exists>t r. r \<in> set ab \<and> row = make_row_single t ''B'' r" if "row \<in> set rs" for row
    using list_all2_rightD [OF all that] by blast
  show "\<exists>t r. r \<in> set ab \<and> row = make_row_single t ''B'' r" if "row \<in> set rs" for row
    using rows that .
  have "map (\<lambda>r. cell r ''TaskID'') rs = map (\<lambda>i. ''B_'' @ fmt02 (Suc i)) [0..<?m]"
    using all by (rule list_all2_map_eq) (auto simp: cell_make_row_single)
  moreover have "\<forall>row \<in> set rs. cell row ''Category'' = ''B''"
    by (metis rows cell_make_row_single(2))
  ultimately show "numbered ''B_'' ''B'' rs"
    unfolding numbered_def by (simp add: len)
qed

subsection \<open>pick_yoy\<close>



lemma pick_yoy_numbered: "numbered ''C_YOY_'' ''C (YoY)'' (pick_yoy two k)"
proof -
  have "map (\<lambda>r. cell r ''TaskID'') (map (\<lambda>(i, (_, _, r1, r2)). make_row_pair (''C_YOY_'' @ fmt02 i) ''C (YoY)'' r1 r2) (enumerate n xs))
        = map (\<lambda>i. ''C_YOY_'' @ fmt02 (n + i)) [0..<length xs]" for n and xs :: "(string \<times> string \<times> FilingRecord \<times> FilingRecord) list"
  proof (induction xs arbitrary: n rule: rev_induct)
    case Nil
    show ?case by simp
  next
    case (snoc x xs)
    then show ?case
      by (cases x) (simp add: enumerate_append_eq cell_make_row_pair)
  qed
  then show ?thesis
    unfolding numbered_def pick_yoy_def
    by (auto simp: cell_make_row_pair)
qed


lemma length_pick_yoy:
  "length (pick_yoy two k) = length (py_prefix (yoy_out two) k)"
  by (simp add: pick_yoy_def py_prefix_def)

subsection \<open>pick_peers\<close>





lemma fill_pairs_eq:
  "fill_pairs k out ps =
     (if max 1 (nat (k - int (length out))) \<le> length ps
      then Inl (number_peers (out @ map peer_row (take (max 1 (nat (k - int (length out)))) ps)))
      else Inr (out @ map peer_row ps))"
proof (induction ps arbitrary: out)
  case Nil
  show ?case by simp
next
  case (Cons p ps)
  obtain r1 r2 where p: "p = (r1, r2)" by (cases p)
  let ?out' = "out @ [make_row_pair ''PENDING'' ''C (Peer)'' r1 r2]"
  show ?case
  proof (cases "k \<le> int (length ?out')")
    case True
    then have "max 1 (nat (k - int (length out))) = 1" by auto
    with True show ?thesis by (simp add: p peer_row_def)
  next
    case False
    then have m: "max 1 (nat (k - int (length out))) = Suc (max 1 (nat (k - int (length ?out'))))"
      by auto
    have "fill_pairs k out (p # ps) = fill_pairs k ?out' ps"
      using False by (simp add: p)
    also have "\<dots> = (if max 1 (nat (k - int (length ?out'))) \<le> length ps
      then Inl (number_peers (?out' @ map peer_row (take (max 1 (nat (k - int (length ?out')))) ps)))
      else Inr (?out' @ map peer_row ps))"
      by (rule Cons.IH)
    finally show ?thesis
      unfolding m by (simp add: p peer_row_def)
  qed
qed

lemma number_peers_numbered: 
  assumes "\<forall>r \<in> set out. cell r ''Category'' = cat"
  shows "numbered ''C_PEER_'' cat (number_peers out)"
proof -
  have "map (\<lambda>r. cell r ''TaskID'') (map (\<lambda>(j, row). AList.update ''TaskID'' (''C_PEER_'' @ fmt02 j) row) (enumerate n xs))
        = map (\<lambda>i. ''C_PEER_'' @ fmt02 (n + i)) [0..<length xs]" for n and xs :: "task_row list"
  proof (induction xs arbitrary: n rule: rev_induct)
    case Nil
    show ?case by simp
  next
    case (snoc x xs)
    then show ?case
      by (simp add: enumerate_append_eq cell_update)
  qed
  moreover have "cell r ''Category'' = cat" if "r \<in> set (number_peers out)" for r
  proof -
    from that obtain j row where "(j, row) \<in> set (enumerate 1 out)"
      and r: "r = AList.update ''TaskID'' (''C_PEER_'' @ fmt02 j) row"
      unfolding number_peers_def by auto
    then have "row \<in> set out"
      by (auto simp: enumerate_eq_zip dest: set_zip_rightD)
    with assms show ?thesis by (simp add: r cell_update)
  qed
  ultimately show ?thesis
    unfolding numbered_def number_peers_def by auto
qed

lemma length_number_peers: "length (number_peers out) = length out"
  by (simp add: number_peers_def)


lemma pick_peers_eq:
  "pick_peers ab k used =
     number_peers (map peer_row
       (peer_selection (filter (\<lambda>r. (Company r, Ticker r) \<notin> used) ab) k))"
proof -
  let ?df = "filter (\<lambda>r. (Company r, Ticker r) \<notin> used) ab"
  let ?s1 = "stage1_pairs ?df" and ?s2 = "stage2_pairs ?df"
  show ?thesis
  proof (cases "max 1 (nat k) \<le> length ?s1")
    case True
    then show ?thesis
      by (simp add: pick_peers_def fill_pairs_eq peer_selection_def)
  next
    case False
    note s1 = False
    show ?thesis
    proof (cases "k \<le> int (length ?s1)")
      case True
      from s1 True have e: "?s1 = []" by (cases ?s1) auto
      with True have "k \<le> 0" by simp
      with e have "?s1 = []" "k \<le> 0" by simp_all
      then show ?thesis
        using s1 True
        by (simp add: pick_peers_def fill_pairs_eq peer_selection_def py_prefix_def number_peers_def)
    next
      case False
      then have k: "int (length ?s1) < k" by simp
      then have m2: "max 1 (nat (k - int (length ?s1))) = nat k - length ?s1" by auto
      show ?thesis
      proof (cases "nat k - length ?s1 \<le> length ?s2")
        case True
        then show ?thesis
          using s1 k m2
          by (simp add: pick_peers_def fill_pairs_eq peer_selection_def Let_def)
      next
        case False
        then have "length (number_peers (map peer_row ?s1 @ map peer_row ?s2)) < nat k"
          by (simp add: length_number_peers)
        then have "py_prefix (number_peers (map peer_row ?s1 @ map peer_row ?s2)) k
                   = number_peers (map peer_row ?s1 @ map peer_row ?s2)"
          using k by (simp add: py_prefix_def)
        then show ?thesis
          using s1 k m2 False
          by (simp add: pick_peers_def fill_pairs_eq peer_selection_def Let_def)
      qed
    qed
  qed
qed


lemma length_peer_selection:
  "1 \<le> k \<Longrightarrow> length (peer_selection df k)
     = min (nat k) (length (stage1_pairs df) + length (stage2_pairs df))"
  by (auto simp: peer_selection_def)

subsection \<open>The assembled table\<close>

lemma in_COLUMNS:
  "''TaskID'' \<in> set COLUMNS" "''Category'' \<in> set COLUMNS"
  "''Company_1'' \<in> set COLUMNS" "''Ticker_1'' \<in> set COLUMNS" "''Sector_1'' \<in> set COLUMNS"
  "''Form_1'' \<in> set COLUMNS" "''Period_1'' \<in> set COLUMNS" "''FilingDate_1'' \<in> set COLUMNS"
  "''Accession_1'' \<in> set COLUMNS" "''EdgarIndexURL_1'' \<in> set COLUMNS"
  "''OpenAsHTMLURL_1'' \<in> set COLUMNS"
  "''Company_2'' \<in> set COLUMNS" "''Ticker_2'' \<in> set COLUMNS" "''Sector_2'' \<in> set COLUMNS"
  "''Form_2'' \<in> set COLUMNS" "''Period_2'' \<in> set COLUMNS" "''FilingDate_2'' \<in> set COLUMNS"
  "''Accession_2'' \<in> set COLUMNS" "''EdgarIndexURL_2'' \<in> set COLUMNS"
  "''OpenAsHTMLURL_2'' \<in> set COLUMNS"
  "''PDF_filename_2'' \<in> set COLUMNS" "''PDF_checksum_2'' \<in> set COLUMNS"
  "''PDF_link_2'' \<in> set COLUMNS"
  by (simp_all add: COLUMNS_def)


lemma length_sort_ab: "length (sort_ab ab) = length ab"
  by (simp add: sort_ab_def length_sort_asc length_sort_desc)


lemma all_rows_Inr:
  assumes "all_rows ab two a b y p = Inr rs"
  obtains a_rows b_rows where
    "a_rows_of (sort_ab ab) a = Inr a_rows"
    "b_rows_of (sort_ab ab) a b = Inr b_rows"
    "rs = a_rows @ b_rows @ pick_yoy two y @ pick_peers (sort_ab ab) p (used_of two y)"
  using assms unfolding all_rows_def Let_def used_of_def by (auto split: sum.splits)

lemma assemble_table_Inr:
  assumes "assemble_table ab two a b y p = Inr master"
  obtains rs where "all_rows (read_manifest ab) (read_manifest two) a b y p = Inr rs"
    "master = data_frame rs COLUMNS"
  using assms unfolding assemble_table_def by (auto split: sum.splits)

lemma peer_rows_numbered: "numbered ''C_PEER_'' ''C (Peer)'' (pick_peers ab k used)"
  unfolding pick_peers_eq
  by (rule number_peers_numbered) (auto simp: peer_row_def cell_make_row_pair)




subsection \<open>TaskIDs of the assembled table\<close>

lemma numbered_ids: "numbered pre cat rs \<Longrightarrow>
  map (\<lambda>r. cell r ''TaskID'') rs = map (\<lambda>i. pre @ fmt02 i) [1..<Suc (length rs)]"
proof -
  have "map (\<lambda>i. pre @ fmt02 (Suc i)) [0..<n] = map (\<lambda>i. pre @ fmt02 i) [1..<Suc n]" for n
    by (induction n) simp_all
  then show "numbered pre cat rs \<Longrightarrow> ?thesis"
    by (simp add: numbered_def)
qed

lemma numbered_distinct:
  assumes "numbered pre cat rs"
  shows "distinct (map (\<lambda>r. cell r ''TaskID'') rs)"
proof -
  have "inj_on (\<lambda>i. pre @ fmt02 (Suc i)) A" for A
    by (rule inj_onI) (auto dest: fmt02_inj)
  then show ?thesis
    using assms by (simp add: numbered_def distinct_map)
qed

lemma numbered_prefix:
  assumes "numbered pre cat rs" and "t \<in> set (map (\<lambda>r. cell r ''TaskID'') rs)"
  shows "take (length pre) t = pre"
proof -
  from assms have "t \<in> set (map (\<lambda>i. pre @ fmt02 (Suc i)) [0..<length rs])"
    by (simp add: numbered_def)
  then show ?thesis by auto
qed

lemma numbered_filter:
  assumes "numbered pre cat rs"
  shows "filter (\<lambda>r. cell r ''Category'' = c) rs = (if c = cat then rs else [])"
  using assms by (auto simp: numbered_def filter_empty_conv)

lemma b_rows_of_total: "0 \<le> a \<Longrightarrow> \<exists>rs. b_rows_of ab a b = Inr rs"
  unfolding b_rows_of_def Let_def py_range_def
  by (rule exI,
      rule traverse_total [where g = "\<lambda>i. make_row_single (''B_'' @ fmt02 (i + 1)) ''B''
                                         (ab ! nat (min a (int (length ab)) + int i))"])
     (auto simp: iloc_def)

lemma require_cols_Inr: "require_cols cols needed = Inr u \<longleftrightarrow> set needed \<subseteq> set cols"
  by (auto simp: require_cols_def filter_empty_conv)

lemma assemble_table_total:
  assumes "set REQUIRED \<subseteq> set (header ab)" and "set REQUIRED \<subseteq> set (header two)" and "0 \<le> a"
  shows "\<exists>rs. all_rows (read_manifest ab) (read_manifest two) a b y p = Inr rs
              \<and> assemble_table ab two a b y p = Inr (data_frame rs COLUMNS)"
proof -
  from b_rows_of_total [OF assms(3)] obtain brs where
    "b_rows_of (sort_ab (read_manifest ab)) a b = Inr brs" by blast
  then have "\<exists>rs. all_rows (read_manifest ab) (read_manifest two) a b y p = Inr rs"
    by (simp add: all_rows_def a_rows_of_eq Let_def)
  then show ?thesis
    using assms(1,2) by (auto simp: assemble_table_def require_cols_def filter_empty_conv)
qed

lemma length_read_manifest: "length (read_manifest t) = length (lines t)"
  by (simp add: read_manifest_def csv_rows_def)

lemma numbered_elem:
  assumes "numbered pre cat rs" and "t \<in> set (map (\<lambda>r. cell r ''TaskID'') rs)"
  shows "\<exists>x. t = pre @ x"
proof -
  from assms have "t \<in> set (map (\<lambda>i. pre @ fmt02 (Suc i)) [0..<length rs])"
    by (simp add: numbered_def)
  then show ?thesis by auto
qed

lemma numbered_disjoint:
  assumes "numbered pre1 c1 rs1" and "numbered pre2 c2 rs2" and "\<And>x y. pre1 @ x \<noteq> pre2 @ y"
  shows "set (map (\<lambda>r. cell r ''TaskID'') rs1) \<inter> set (map (\<lambda>r. cell r ''TaskID'') rs2) = {}"
proof -
  have False if 1: "t \<in> set (map (\<lambda>r. cell r ''TaskID'') rs1)"
    and 2: "t \<in> set (map (\<lambda>r. cell r ''TaskID'') rs2)" for t
  proof -
    from numbered_elem [OF assms(1) 1] obtain x where "t = pre1 @ x" ..
    moreover from numbered_elem [OF assms(2) 2] obtain y where "t = pre2 @ y" ..
    ultimately show False using assms(3) by metis
  qed
  then show ?thesis by blast
qed

lemma master_rows:
  assumes "assemble_table ab two a b y p = Inr master"
  obtains a_rows b_rows where
    "a_rows_of (sort_ab (read_manifest ab)) a = Inr a_rows"
    "b_rows_of (sort_ab (read_manifest ab)) a b = Inr b_rows"
    "csv_rows master = map (\<lambda>r. zip COLUMNS (map (cell r) COLUMNS))
        (a_rows @ b_rows @ pick_yoy (read_manifest two) y
           @ pick_peers (sort_ab (read_manifest ab)) p (used_of (read_manifest two) y))"
proof -
  from assms obtain rs where rs: "all_rows (read_manifest ab) (read_manifest two) a b y p = Inr rs"
    and m: "master = data_frame rs COLUMNS"
    by (rule assemble_table_Inr)
  from rs obtain a_rows b_rows where
    ar: "a_rows_of (sort_ab (read_manifest ab)) a = Inr a_rows" and
    br: "b_rows_of (sort_ab (read_manifest ab)) a b = Inr b_rows" and
    split: "rs = a_rows @ b_rows @ pick_yoy (read_manifest two) y
                 @ pick_peers (sort_ab (read_manifest ab)) p (used_of (read_manifest two) y)"
    by (rule all_rows_Inr)
  show thesis
    using ar br by (rule that) (simp add: m csv_rows_data_frame split)
qed

lemma master_task_ids:
  assumes "assemble_table ab two a b y p = Inr master"
  obtains a_rows b_rows y_rows p_rows where
    "numbered ''A_'' ''A'' a_rows" "numbered ''B_'' ''B'' b_rows"
    "numbered ''C_YOY_'' ''C (YoY)'' y_rows" "numbered ''C_PEER_'' ''C (Peer)'' p_rows"
    "map (\<lambda>r. cell r ''TaskID'') (csv_rows master)
       = map (\<lambda>r. cell r ''TaskID'') (a_rows @ b_rows @ y_rows @ p_rows)"
    "\<forall>c. task_ids master c
       = map (\<lambda>r. cell r ''TaskID'') (filter (\<lambda>r. cell r ''Category'' = c) (a_rows @ b_rows @ y_rows @ p_rows))"
proof -
  from assms obtain a_rows b_rows where
    ar: "a_rows_of (sort_ab (read_manifest ab)) a = Inr a_rows" and
    br: "b_rows_of (sort_ab (read_manifest ab)) a b = Inr b_rows" and
    m: "csv_rows master = map (\<lambda>r. zip COLUMNS (map (cell r) COLUMNS))
        (a_rows @ b_rows @ pick_yoy (read_manifest two) y
           @ pick_peers (sort_ab (read_manifest ab)) p (used_of (read_manifest two) y))"
    by (rule master_rows)
  let ?rs = "a_rows @ b_rows @ pick_yoy (read_manifest two) y
           @ pick_peers (sort_ab (read_manifest ab)) p (used_of (read_manifest two) y)"
  have ids: "map (\<lambda>r. cell r ''TaskID'') (csv_rows master) = map (\<lambda>r. cell r ''TaskID'') ?rs"
    unfolding m by (simp add: comp_def cell_data_frame_row in_COLUMNS)
  have "filter (\<lambda>r. cell r ''Category'' = c) (csv_rows master)
        = map (\<lambda>r. zip COLUMNS (map (cell r) COLUMNS)) (filter (\<lambda>r. cell r ''Category'' = c) ?rs)" for c
    unfolding m by (simp add: filter_map comp_def cell_data_frame_row in_COLUMNS)
  then have cat: "\<forall>c. task_ids master c
        = map (\<lambda>r. cell r ''TaskID'') (filter (\<lambda>r. cell r ''Category'' = c) ?rs)"
    by (simp add: task_ids_def comp_def cell_data_frame_row in_COLUMNS)
  show thesis
    using a_rows_numbered(1) [OF ar] b_rows_numbered(1) [OF br]
      pick_yoy_numbered [of "read_manifest two" y]
      peer_rows_numbered [of "sort_ab (read_manifest ab)" p "used_of (read_manifest two) y"]
      ids cat
    by (rule that)
qed

lemma fmt02_shape:
  "list_all is_digit (fmt02 i) \<and> dec_value (fmt02 i) = i
     \<and> 2 \<le> length (fmt02 i) \<and> (i < 100 \<longrightarrow> length (fmt02 i) = 2)"
  using length_dec_large [of i]
  by (auto simp: list_all_iff digits_fmt02 dec_value_fmt02 length_fmt02)

section \<open>Claims about the Task Assembler\<close>

lemma ex_run: "assemble_table ex_ab ex_two 1 1 1 2 = Inr ex_master"
  by code_simp


lemma a_row_task_id:
  assumes "assemble_table ab two a b y p = Inr master" and "int i < a" and "i < length (lines ab)"
  shows "cell (csv_rows master ! i) ''TaskID'' = ''A_'' @ fmt02 (Suc i)"
proof -
  from assms(1) obtain a_rows b_rows where
    ar: "a_rows_of (sort_ab (read_manifest ab)) a = Inr a_rows" and
    m: "csv_rows master = map (\<lambda>r. zip COLUMNS (map (cell r) COLUMNS))
        (a_rows @ b_rows @ pick_yoy (read_manifest two) y
           @ pick_peers (sort_ab (read_manifest ab)) p (used_of (read_manifest two) y))"
    by (rule master_rows)
  have i: "i < nat (min a (int (length (sort_ab (read_manifest ab)))))"
    using assms(2,3) by (simp add: length_sort_ab length_read_manifest)
  have a_rows: "a_rows = map (\<lambda>i. make_row_single (''A_'' @ fmt02 (i + 1)) ''A''
                                  (sort_ab (read_manifest ab) ! i))
                             [0..<nat (min a (int (length (sort_ab (read_manifest ab)))))]"
    using ar by (simp add: a_rows_of_eq)
  have len: "i < length a_rows"
    using i by (simp add: a_rows)
  then have "csv_rows master ! i = zip COLUMNS (map (cell (a_rows ! i)) COLUMNS)"
    by (simp add: m nth_append)
  moreover have "cell (a_rows ! i) ''TaskID'' = ''A_'' @ fmt02 (Suc i)"
    using i by (simp add: a_rows cell_make_row_single)
  ultimately show ?thesis
    by (simp add: cell_data_frame_row in_COLUMNS)
qed

text \<open>
  Claim C2, as amended. In the table the assembler writes, all TaskIDs are pairwise
  distinct, and the TaskIDs of each category are, in table order, the prefix (\<open>A_\<close>,
  \<open>B_\<close>, \<open>C_YOY_\<close>, \<open>C_PEER_\<close>) followed by the index 1, 2, 3, ... with no gap,
  printed by \<open>fmt02\<close>: in decimal, padded with zeros to at least two digits, so with
  exactly two digits while the index is below 100.
\<close>

theorem task_ids_sequential:
  assumes "assemble_table ab two a b y p = Inr master"
  shows "distinct (map (\<lambda>r. cell r ''TaskID'') (csv_rows master))
       \<and> task_ids master ''A'' = map (\<lambda>i. ''A_'' @ fmt02 i) [1..<Suc (length (task_ids master ''A''))]
       \<and> task_ids master ''B'' = map (\<lambda>i. ''B_'' @ fmt02 i) [1..<Suc (length (task_ids master ''B''))]
       \<and> task_ids master ''C (YoY)''
           = map (\<lambda>i. ''C_YOY_'' @ fmt02 i) [1..<Suc (length (task_ids master ''C (YoY)''))]
       \<and> task_ids master ''C (Peer)''
           = map (\<lambda>i. ''C_PEER_'' @ fmt02 i) [1..<Suc (length (task_ids master ''C (Peer)''))]
       \<and> (\<forall>i. list_all is_digit (fmt02 i) \<and> dec_value (fmt02 i) = i
              \<and> 2 \<le> length (fmt02 i) \<and> (i < 100 \<longrightarrow> length (fmt02 i) = 2))"
proof -
  from assms obtain a_rows b_rows y_rows p_rows where
    na: "numbered ''A_'' ''A'' a_rows" and nb: "numbered ''B_'' ''B'' b_rows" and
    ny: "numbered ''C_YOY_'' ''C (YoY)'' y_rows" and np: "numbered ''C_PEER_'' ''C (Peer)'' p_rows" and
    ids: "map (\<lambda>r. cell r ''TaskID'') (csv_rows master)
       = map (\<lambda>r. cell r ''TaskID'') (a_rows @ b_rows @ y_rows @ p_rows)" and
    cat: "\<forall>c. task_ids master c
       = map (\<lambda>r. cell r ''TaskID'') (filter (\<lambda>r. cell r ''Category'' = c) (a_rows @ b_rows @ y_rows @ p_rows))"
    by (rule master_task_ids)
  note nf = numbered_filter [OF na] numbered_filter [OF nb] numbered_filter [OF ny]
          numbered_filter [OF np]
  have ta: "task_ids master ''A'' = map (\<lambda>r. cell r ''TaskID'') a_rows"
    by (simp add: cat nf)
  have tb: "task_ids master ''B'' = map (\<lambda>r. cell r ''TaskID'') b_rows"
    by (simp add: cat nf)
  have ty: "task_ids master ''C (YoY)'' = map (\<lambda>r. cell r ''TaskID'') y_rows"
    by (simp add: cat nf)
  have tp: "task_ids master ''C (Peer)'' = map (\<lambda>r. cell r ''TaskID'') p_rows"
    by (simp add: cat nf)
  have d1: "set (map (\<lambda>r. cell r ''TaskID'') a_rows) \<inter> set (map (\<lambda>r. cell r ''TaskID'') b_rows) = {}"
    using na nb by (rule numbered_disjoint) simp
  have d2: "set (map (\<lambda>r. cell r ''TaskID'') a_rows) \<inter> set (map (\<lambda>r. cell r ''TaskID'') y_rows) = {}"
    using na ny by (rule numbered_disjoint) simp
  have d3: "set (map (\<lambda>r. cell r ''TaskID'') a_rows) \<inter> set (map (\<lambda>r. cell r ''TaskID'') p_rows) = {}"
    using na np by (rule numbered_disjoint) simp
  have d4: "set (map (\<lambda>r. cell r ''TaskID'') b_rows) \<inter> set (map (\<lambda>r. cell r ''TaskID'') y_rows) = {}"
    using nb ny by (rule numbered_disjoint) simp
  have d5: "set (map (\<lambda>r. cell r ''TaskID'') b_rows) \<inter> set (map (\<lambda>r. cell r ''TaskID'') p_rows) = {}"
    using nb np by (rule numbered_disjoint) simp
  have d6: "set (map (\<lambda>r. cell r ''TaskID'') y_rows) \<inter> set (map (\<lambda>r. cell r ''TaskID'') p_rows) = {}"
    using ny np by (rule numbered_disjoint) simp
  have "distinct (map (\<lambda>r. cell r ''TaskID'') (csv_rows master))"
    unfolding ids map_append distinct_append
    using numbered_distinct [OF na] numbered_distinct [OF nb] numbered_distinct [OF ny]
      numbered_distinct [OF np] d1 d2 d3 d4 d5 d6
    by (simp add: Int_Un_distrib)
  moreover have "task_ids master ''A'' = map (\<lambda>i. ''A_'' @ fmt02 i) [1..<Suc (length (task_ids master ''A''))]"
    unfolding ta length_map by (rule numbered_ids [OF na])
  moreover have "task_ids master ''B'' = map (\<lambda>i. ''B_'' @ fmt02 i) [1..<Suc (length (task_ids master ''B''))]"
    unfolding tb length_map by (rule numbered_ids [OF nb])
  moreover have "task_ids master ''C (YoY)''
           = map (\<lambda>i. ''C_YOY_'' @ fmt02 i) [1..<Suc (length (task_ids master ''C (YoY)''))]"
    unfolding ty length_map by (rule numbered_ids [OF ny])
  moreover have "task_ids master ''C (Peer)''
           = map (\<lambda>i. ''C_PEER_'' @ fmt02 i) [1..<Suc (length (task_ids master ''C (Peer)''))]"
    unfolding tp length_map by (rule numbered_ids [OF np])
  ultimately show ?thesis
    using fmt02_shape by blast
qed

theorem task_ids_sequential_witness:
  "assemble_table ex_ab ex_two 1 1 1 2 = Inr ex_master
   \<and> distinct (map (\<lambda>r. cell r ''TaskID'') (csv_rows ex_master))
   \<and> task_ids ex_master ''A'' = map (\<lambda>i. ''A_'' @ fmt02 i) [1..<Suc (length (task_ids ex_master ''A''))]
   \<and> task_ids ex_master ''C (Peer)'' = [''C_PEER_01'', ''C_PEER_02'']"
proof -
  have "task_ids ex_master ''C (Peer)'' = [''C_PEER_01'', ''C_PEER_02'']"
    by code_simp
  with task_ids_sequential [OF ex_run] ex_run show ?thesis
    by blast
qed

text \<open>
  Claim C2 as stated fails: with 100 rows in the AB manifest and \<open>a_count = 100\<close> the
  hundredth row has the TaskID \<open>A_100\<close>, whose index has three digits.
\<close>

theorem task_id_three_digits:
  "map_sum id (\<lambda>m. (cell (csv_rows m ! 99) ''TaskID'',
                     two_digit_id ''A'' (cell (csv_rows m ! 99) ''TaskID'')))
           (assemble_table ex_ab100 ex_none 100 0 0 0) = Inr (''A_100'', False)"
proof -
  have "set REQUIRED \<subseteq> set (header ex_ab100)" "set REQUIRED \<subseteq> set (header ex_none)"
    by (simp_all add: REQUIRED_def ex_ab100_def ex_none_def MANIFEST_HEADER_def)
  then obtain rs where run: "assemble_table ex_ab100 ex_none 100 0 0 0 = Inr (data_frame rs COLUMNS)"
    using assemble_table_total [of ex_ab100 ex_none 100 0 0 0] by auto
  have "cell (csv_rows (data_frame rs COLUMNS) ! 99) ''TaskID'' = ''A_'' @ fmt02 (Suc 99)"
    using run by (rule a_row_task_id) (simp_all add: ex_ab100_def)
  moreover have "fmt02 (Suc 99) = ''100''"
    by code_simp
  moreover have "two_digit_id ''A'' ''A_100'' = False"
    by code_simp
  ultimately show ?thesis
    by (simp add: run)
qed






text \<open>
  Claim C8, as amended. The written table has exactly the fixed column order of the
  script, which counts 35 columns, and every line has 35 cells.
\<close>

theorem master_columns:
  assumes "assemble_table ab two a b y p = Inr master"
  shows "header master =
           [''TaskID'', ''Status'', ''TaskerName'', ''Category'', ''Prompt'', ''Answer'',
            ''SupportingFacts'', ''QA_Reviewer'', ''QA_Approval'', ''QA_Final_Approval'',
            ''Notes'',
            ''Company_1'', ''Ticker_1'', ''Sector_1'', ''Form_1'', ''Period_1'', ''FilingDate_1'',
            ''Company_2'', ''Ticker_2'', ''Sector_2'', ''Form_2'', ''Period_2'', ''FilingDate_2'',
            ''Accession_1'', ''EdgarIndexURL_1'', ''OpenAsHTMLURL_1'', ''PDF_filename_1'',
            ''PDF_checksum_1'', ''PDF_link_1'',
            ''Accession_2'', ''EdgarIndexURL_2'', ''OpenAsHTMLURL_2'', ''PDF_filename_2'',
            ''PDF_checksum_2'', ''PDF_link_2'']
       \<and> length (header master) = 35
       \<and> list_all (\<lambda>l. length l = 35) (lines master)"
proof -
  from assms obtain rs where "master = data_frame rs COLUMNS"
    by (rule assemble_table_Inr)
  then show ?thesis
    by (simp add: data_frame_def COLUMNS_def list_all_iff)
qed

theorem master_columns_witness:
  "assemble_table ex_ab ex_two 1 1 1 2 = Inr ex_master
   \<and> length (header ex_master) = 35
   \<and> list_all (\<lambda>l. length l = 35) (lines ex_master)
   \<and> length (lines ex_master) = 5"
proof -
  have "length (lines ex_master) = 5"
    by (simp add: ex_master_def data_frame_def)
  with master_columns [OF ex_run] ex_run show ?thesis
    by blast
qed

text \<open>Claim C8 as stated fails on the count: the header has 35 names, not 34.\<close>

theorem master_columns_not_34:
  "map_sum id (\<lambda>m. (length (header m), length (header m) = 34))
           (assemble_table ex_ab ex_two 1 1 1 2) = Inr (35, False)"
  by code_simp

text \<open>
  The row count when every count is non-negative and at least one peer row is asked
  for: each category gives what is available, capped at its count.
\<close>

lemma length_b_rows_nonneg:
  assumes "0 \<le> a" and "0 \<le> b"
  shows "nat (max 0 (min (min a (int n) + b) (int n) - min a (int n)))
           = min (nat b) (n - min (nat a) n)"
proof -
  obtain a' where a: "a = int a'" using assms(1) by (metis nat_0_le)
  obtain b' where b: "b = int b'" using assms(2) by (metis nat_0_le)
  show ?thesis
    unfolding a b by (auto simp: min_def max_def)
qed

lemma assemble_row_count:
  assumes "set REQUIRED \<subseteq> set (header ab)" and "set REQUIRED \<subseteq> set (header two)"
    and "0 \<le> a" and "0 \<le> b" and "0 \<le> y" and "1 \<le> p"
  shows "\<exists>master. assemble_table ab two a b y p = Inr master
           \<and> length (lines master)
               = min (nat a) (length (lines ab))
                 + min (nat b) (length (lines ab) - min (nat a) (length (lines ab)))
                 + min (nat y) (length (yoy_out (read_manifest two)))
                 + min (nat p)
                     (length (stage1_pairs
                        (filter (\<lambda>r. (Company r, Ticker r) \<notin> used_of (read_manifest two) y)
                           (sort_ab (read_manifest ab))))
                      + length (stage2_pairs
                        (filter (\<lambda>r. (Company r, Ticker r) \<notin> used_of (read_manifest two) y)
                           (sort_ab (read_manifest ab)))))"
proof -
  from assemble_table_total [OF assms(1,2,3)] obtain rs where
    rs: "all_rows (read_manifest ab) (read_manifest two) a b y p = Inr rs"
    and m: "assemble_table ab two a b y p = Inr (data_frame rs COLUMNS)"
    by blast
  from rs obtain a_rows b_rows where
    ar: "a_rows_of (sort_ab (read_manifest ab)) a = Inr a_rows" and
    br: "b_rows_of (sort_ab (read_manifest ab)) a b = Inr b_rows" and
    split: "rs = a_rows @ b_rows @ pick_yoy (read_manifest two) y
                 @ pick_peers (sort_ab (read_manifest ab)) p (used_of (read_manifest two) y)"
    by (rule all_rows_Inr)
  have la: "length a_rows = min (nat a) (length (lines ab))"
    using a_rows_numbered(2) [OF ar] assms(3)
    by (simp add: length_sort_ab length_read_manifest)
  have lb: "length b_rows = min (nat b) (length (lines ab) - min (nat a) (length (lines ab)))"
    using b_rows_numbered(2) [OF br] length_b_rows_nonneg [OF assms(3,4), of "length (lines ab)"]
    by (simp add: length_sort_ab length_read_manifest)
  have ly: "length (pick_yoy (read_manifest two) y) = min (nat y) (length (yoy_out (read_manifest two)))"
    using assms(5) by (simp add: length_pick_yoy py_prefix_nonneg)
  have lp: "length (pick_peers (sort_ab (read_manifest ab)) p (used_of (read_manifest two) y))
      = min (nat p)
          (length (stage1_pairs
             (filter (\<lambda>r. (Company r, Ticker r) \<notin> used_of (read_manifest two) y)
                (sort_ab (read_manifest ab))))
           + length (stage2_pairs
             (filter (\<lambda>r. (Company r, Ticker r) \<notin> used_of (read_manifest two) y)
                (sort_ab (read_manifest ab)))))"
    using assms(6) by (simp add: pick_peers_eq length_number_peers length_peer_selection)
  have "length rs = length a_rows + length b_rows + length (pick_yoy (read_manifest two) y)
      + length (pick_peers (sort_ab (read_manifest ab)) p (used_of (read_manifest two) y))"
    unfolding split by simp
  moreover have "length (lines (data_frame rs COLUMNS)) = length rs"
    by (simp add: data_frame_def)
  ultimately have "length (lines (data_frame rs COLUMNS))
      = min (nat a) (length (lines ab))
        + min (nat b) (length (lines ab) - min (nat a) (length (lines ab)))
        + min (nat y) (length (yoy_out (read_manifest two)))
        + min (nat p)
            (length (stage1_pairs
               (filter (\<lambda>r. (Company r, Ticker r) \<notin> used_of (read_manifest two) y)
                  (sort_ab (read_manifest ab))))
             + length (stage2_pairs
               (filter (\<lambda>r. (Company r, Ticker r) \<notin> used_of (read_manifest two) y)
                  (sort_ab (read_manifest ab)))))"
    by (simp only: la lb ly lp)
  with m show ?thesis
    by blast
qed

lemma ex_stage1: "stage1_pairs (sort_ab (read_manifest ex_ab)) = [(ex_acme, ex_bolt)]"
  by code_simp

lemma fmt02_1: "fmt02 1 = ''01''"
  by code_simp

text \<open>
  Claim C1 at the counts 0, 0, 0, 0 and an AB manifest with two companies of one sector
  and filing year: the written table has one row, \<open>C_PEER_01\<close>, where the claim
  allows none.
\<close>

theorem extra_peer_row_at_zero:
  "map_sum id (\<lambda>m. (length (lines m), map (\<lambda>r. cell r ''TaskID'') (csv_rows m)))
           (assemble_table ex_ab ex_none 0 0 0 0) = Inr (1, [''C_PEER_01''])"
proof -
  have "set REQUIRED \<subseteq> set (header ex_ab)" "set REQUIRED \<subseteq> set (header ex_none)"
    by (simp_all add: REQUIRED_def ex_ab_def ex_none_def MANIFEST_HEADER_def)
  then obtain rs where
    rs: "all_rows (read_manifest ex_ab) (read_manifest ex_none) 0 0 0 0 = Inr rs"
    and m: "assemble_table ex_ab ex_none 0 0 0 0 = Inr (data_frame rs COLUMNS)"
    using assemble_table_total [of ex_ab ex_none 0 0 0 0] by auto
  from rs obtain a_rows b_rows where
    ar: "a_rows_of (sort_ab (read_manifest ex_ab)) 0 = Inr a_rows" and
    br: "b_rows_of (sort_ab (read_manifest ex_ab)) 0 0 = Inr b_rows" and
    split: "rs = a_rows @ b_rows @ pick_yoy (read_manifest ex_none) 0
                 @ pick_peers (sort_ab (read_manifest ex_ab)) 0 (used_of (read_manifest ex_none) 0)"
    by (rule all_rows_Inr)
  have a: "a_rows = []"
    using a_rows_numbered(2) [OF ar] by simp
  have b: "b_rows = []"
    using b_rows_numbered(2) [OF br] by simp
  have y: "pick_yoy (read_manifest ex_none) 0 = []"
    using length_pick_yoy [of "read_manifest ex_none" 0] by (simp add: py_prefix_def)
  have u: "used_of (read_manifest ex_none) 0 = {}"
    by (simp add: used_of_def y)
  have p: "pick_peers (sort_ab (read_manifest ex_ab)) 0 {} = number_peers [peer_row (ex_acme, ex_bolt)]"
    by (simp add: pick_peers_eq peer_selection_def ex_stage1)
  have ids: "map (\<lambda>r. cell r ''TaskID'') (number_peers [peer_row (ex_acme, ex_bolt)]) = [''C_PEER_01'']"
    using fmt02_1 by (simp add: number_peers_def cell_update)
  have rs': "rs = number_peers [peer_row (ex_acme, ex_bolt)]"
    by (simp add: split a b y u p)
  have "length (lines (data_frame rs COLUMNS)) = 1"
    by (simp add: data_frame_def rs' length_number_peers)
  moreover have "map (\<lambda>r. cell r ''TaskID'') (csv_rows (data_frame rs COLUMNS)) = [''C_PEER_01'']"
    using ids by (simp add: csv_rows_data_frame comp_def cell_data_frame_row in_COLUMNS rs')
  ultimately show ?thesis
    by (simp add: m)
qed

text \<open>
  Claim C10. For the AB manifest \<open>ex_ab\<close> and two peer rows asked for, Stage 1 finds
  one pair, fewer than asked; Stage 2 walks the same rows again and pairs the same two
  companies, so the written table has two \<open>C (Peer)\<close> rows with the same companies.
\<close>

theorem stage2_repeats_stage1_pair:
  "stage1_pairs (sort_ab (read_manifest ex_ab)) = [(ex_acme, ex_bolt)]
   \<and> int (length (stage1_pairs (sort_ab (read_manifest ex_ab)))) < 2
   \<and> fill_pairs 2 [] (stage1_pairs (sort_ab (read_manifest ex_ab)))
       = Inr [make_row_pair ''PENDING'' ''C (Peer)'' ex_acme ex_bolt]
   \<and> stage2_pairs (sort_ab (read_manifest ex_ab)) = [(ex_acme, ex_bolt)]
   \<and> map_sum id (map (\<lambda>r. (cell r ''TaskID'', cell r ''Category'', cell r ''Company_1'',
                            cell r ''Company_2'')) \<circ> csv_rows)
        (assemble_table ex_ab ex_none 0 0 0 2)
     = Inr [(''C_PEER_01'', ''C (Peer)'', ''Acme'', ''Bolt''),
            (''C_PEER_02'', ''C (Peer)'', ''Acme'', ''Bolt'')]"
  by code_simp

section \<open>Properties of the PDF Finalizer\<close>

subsection \<open>File names\<close>

lemma dec_1_2: "dec 1 = ''1''" "dec 2 = ''2''" "dec (Suc 0) = ''1''"
  by code_simp+

lemma filter_dropWhile_not: "filter P (dropWhile (\<lambda>x. \<not> P x) xs) = filter P xs"
  by (induction xs) auto

lemma filter_strip: "filter (\<lambda>c. \<not> is_space c) (strip s) = filter (\<lambda>c. \<not> is_space c) s"
proof -
  have "filter (\<lambda>c. \<not> is_space c) (dropWhile is_space xs) = filter (\<lambda>c. \<not> is_space c) xs" for xs
    using filter_dropWhile_not [of "\<lambda>c. \<not> is_space c" xs] by simp
  then show ?thesis
    by (simp add: strip_def flip: rev_filter)
qed

lemma sanitize_spec: "sanitize v = spec_sanitized v"
  by (cases v) (simp_all add: sanitize_def spec_sanitized_def filter_strip)

lemma length_spec_sanitized: "length (spec_sanitized v) \<le> 150"
  by (cases v) (simp_all add: spec_sanitized_def)

lemma spec_sanitized_chars: "c \<in> set (spec_sanitized v) \<Longrightarrow> \<not> is_space c \<and> c \<notin> set UNSAFE"
  by (cases v) (auto simp: spec_sanitized_def dest: in_set_takeD)

lemma set_join: "c \<in> set (join sep ps) \<Longrightarrow> c \<in> set sep \<or> (\<exists>p \<in> set ps. c \<in> set p)"
  by (induction sep ps rule: join.induct) auto

lemma join_empty_iff: "join sep ps = [] \<longleftrightarrow> (ps = [] \<or> (sep = [] \<and> (\<forall>p \<in> set ps. p = [])) \<or> ps = [[]])"
  by (induction sep ps rule: join.induct) auto

lemma length_join:
  "ps \<noteq> [] \<Longrightarrow> length (join sep ps) + length sep = sum_list (map (\<lambda>p. length p + length sep) ps)"
  by (induction sep ps rule: join.induct) auto

lemma sum_list_filter_le: "sum_list (map f (filter P xs)) \<le> sum_list (map (f :: 'a \<Rightarrow> nat) xs)"
  by (induction xs) auto

lemma determine_filename_eq:
  "determine_filename row idx =
     (if spec_parts row idx = [] then ''row_'' @ dec idx else join ''_'' (spec_parts row idx)) @ ''.pdf''"
proof -
  have "join ''_'' ps = [] \<longleftrightarrow> ps = []" if "\<forall>p \<in> set ps. p \<noteq> []" for ps :: "string list"
    using that by (auto simp: join_empty_iff)
  then have "join ''_'' (spec_parts row idx) = [] \<longleftrightarrow> spec_parts row idx = []"
    by (simp add: spec_parts_def)
  then show ?thesis
    by (simp add: determine_filename_def spec_parts_def Let_def sanitize_spec)
qed

lemma spec_parts_chars:
  assumes "p \<in> set (spec_parts row idx)" and "c \<in> set p"
  shows "safe_char c"
proof -
  from assms(1) consider k where "p = spec_sanitized (row_get row k)" | "p = ''doc2''"
    by (auto simp: spec_parts_def split: if_splits)
  then show ?thesis
  proof cases
    case 1
    with assms(2) show ?thesis by (simp add: safe_char_def spec_sanitized_chars)
  next
    case 2
    with assms(2) show ?thesis by (auto simp: safe_char_def is_space_def UNSAFE_def)
  qed
qed

lemma spec_parts_length:
  "sum_list (map (\<lambda>p. length p + 1) (spec_parts row idx)) \<le> 760"
proof -
  let ?fields = "map (\<lambda>k. spec_sanitized (row_get row k))
            [''TaskID'', ''Ticker_'' @ dec idx, ''Form_'' @ dec idx, ''Period_'' @ dec idx,
             ''FilingDate_'' @ dec idx]"
  have "sum_list (map (\<lambda>p. length p + 1) (spec_parts row idx))
        \<le> sum_list (map (\<lambda>p. length p + 1) (?fields @ (if idx = 2 then [''doc2''] else [])))"
    unfolding spec_parts_def by (rule sum_list_filter_le)
  also have "\<dots> \<le> 760"
  proof -
    have "sum_list (map (\<lambda>p. length p + 1) ?fields) \<le> 755"
      using length_spec_sanitized [of "row_get row ''TaskID''"]
        length_spec_sanitized [of "row_get row (''Ticker_'' @ dec idx)"]
        length_spec_sanitized [of "row_get row (''Form_'' @ dec idx)"]
        length_spec_sanitized [of "row_get row (''Period_'' @ dec idx)"]
        length_spec_sanitized [of "row_get row (''FilingDate_'' @ dec idx)"]
      by simp
    moreover have "sum_list (map (\<lambda>p. length p + 1) (if idx = 2 then [''doc2''] else [])) \<le> 5"
      by simp
    ultimately show ?thesis
      unfolding map_append sum_list_append by linarith
  qed
  finally show ?thesis .
qed

lemma ex_row_name: "determine_filename ex_row 1 = ''A_01_ACME_10-K_2023_2024-02-01.pdf''"
  by code_simp

lemma ex_row_parts: "spec_parts ex_row 1 = [''A_01'', ''ACME'', ''10-K'', ''2023'', ''2024-02-01'']"
  by code_simp

subsection \<open>Download with retries\<close>






section \<open>Claims about the PDF Finalizer\<close>

text \<open>
  Claim C7, as amended. For every row and slot 1 or 2 that has a non-empty part (a
  field TaskID, Ticker, Form, Period or FilingDate of the slot that is not empty after
  sanitizing, or the marker \<open>doc2\<close>, which slot 2 always has as its last part), the
  file name is the non-empty parts joined by underscores and followed by \<open>.pdf\<close>.
  A sanitized field is the text of the cell without whitespace and path-unsafe
  characters, cut to 150 characters. For every row and slot 1 or 2, with or without a
  non-empty part, every part respects the cap of 150 characters, the name holds no
  whitespace and no path-unsafe character, and it has at most 763 characters.
\<close>

theorem filename_derivation:
  assumes "idx = 1 \<or> idx = 2"
  shows "(spec_parts row idx \<noteq> [] \<longrightarrow>
            determine_filename row idx = join ''_'' (spec_parts row idx) @ ''.pdf'')
       \<and> (idx = 2 \<longrightarrow> spec_parts row idx \<noteq> [] \<and> last (spec_parts row idx) = ''doc2'')
       \<and> list_all (\<lambda>p. length p \<le> 150) (spec_parts row idx)
       \<and> list_all safe_char (determine_filename row idx)
       \<and> length (determine_filename row idx) \<le> 763"
proof -
  have 1: "spec_parts row idx \<noteq> [] \<longrightarrow>
            determine_filename row idx = join ''_'' (spec_parts row idx) @ ''.pdf''"
    by (simp add: determine_filename_eq)
  have 2: "idx = 2 \<longrightarrow> spec_parts row idx \<noteq> [] \<and> last (spec_parts row idx) = ''doc2''"
    by (simp add: spec_parts_def)
  have 3: "list_all (\<lambda>p. length p \<le> 150) (spec_parts row idx)"
    by (auto simp: list_all_iff spec_parts_def length_spec_sanitized)
  have 4: "list_all safe_char (determine_filename row idx)"
  proof (cases "spec_parts row idx = []")
    case True
    with assms show ?thesis
      by (auto simp: determine_filename_eq dec_1_2 list_all_iff safe_char_def is_space_def UNSAFE_def)
  next
    case False
    have "safe_char c" if "c \<in> set (join ''_'' (spec_parts row idx))" for c
      using set_join [OF that] spec_parts_chars [of _ row idx c]
      by (auto simp: safe_char_def is_space_def UNSAFE_def)
    with False show ?thesis
      by (auto simp: determine_filename_eq list_all_iff safe_char_def is_space_def UNSAFE_def)
  qed
  have 5: "length (determine_filename row idx) \<le> 763"
  proof (cases "spec_parts row idx = []")
    case True
    with assms show ?thesis
      by (auto simp: determine_filename_eq dec_1_2)
  next
    case False
    from length_join [OF False, of "''_''"] spec_parts_length [of row idx]
    have "length (join ''_'' (spec_parts row idx)) \<le> 759" by simp
    with False show ?thesis
      by (simp add: determine_filename_eq)
  qed
  from 1 2 3 4 5 show ?thesis
    by (intro conjI)
qed

theorem filename_derivation_witness:
  "((1::nat) = 1 \<or> (1::nat) = 2)
   \<and> spec_parts ex_row 1 = [''A_01'', ''ACME'', ''10-K'', ''2023'', ''2024-02-01'']
   \<and> determine_filename ex_row 1 = ''A_01_ACME_10-K_2023_2024-02-01.pdf''
   \<and> list_all safe_char (determine_filename ex_row 1)
   \<and> length (determine_filename ex_row 1) \<le> 763"
proof -
  have h: "(1::nat) = 1 \<or> (1::nat) = 2" by simp
  note t = filename_derivation [of 1 ex_row, OF h]
  show ?thesis
    by (intro conjI)
       (rule h ex_row_parts ex_row_name t [THEN conjunct2, THEN conjunct2, THEN conjunct2, THEN conjunct1]
          t [THEN conjunct2, THEN conjunct2, THEN conjunct2, THEN conjunct2])+
qed

text \<open>
  Claim C7 as stated fails on the length: the cap holds for each field, not for the
  name. With a TaskID and a ticker of 150 characters the name has 321 characters.
\<close>

theorem filename_exceeds_cap:
  "length (determine_filename ex_long_row 1) = 321
   \<and> \<not> length (determine_filename ex_long_row 1) \<le> 150 + length ''.pdf''"
  by code_simp




end
